theory Spec2Isabelle
  imports Main "HOL-Library.Log_Nat"
begin

section \<open>Python floats\<close>

text \<open>
  Every money amount of \<^verbatim>\<open>pos.py\<close> is a Python \<^verbatim>\<open>float\<close>, an IEEE-754 binary64 number.
  A finite float is modelled by the rational number it denotes, and every arithmetic
  operation rounds the exact result to 53 significant bits, ties to even, as the hardware
  does. The exponent range is not bounded: overflow to infinity and gradual underflow are
  not modelled, so the operations agree with CPython as long as the magnitudes stay
  inside the normal range of binary64 (about 2.2e-308 to 1.8e308), which money amounts
  do. Infinities, NaN and the sign of zero are not represented.
\<close>

type_synonym float = rat

definition round_half_even :: "rat \<Rightarrow> int" where
  "round_half_even x =
     (let f = \<lfloor>x\<rfloor>; d = x - of_int f
      in if d < 1 / 2 then f else if 1 / 2 < d then f + 1 else if even f then f else f + 1)"

text \<open>\<open>ilog2 x\<close> is the binary exponent of a positive \<open>x\<close>: \<open>2 ^ ilog2 x \<le> x < 2 ^ (ilog2 x + 1)\<close>.\<close>

definition ilog2 :: "rat \<Rightarrow> int" where
  "ilog2 x = (if 1 \<le> x then int (floorlog 2 (nat \<lfloor>x\<rfloor>)) - 1
              else - int (floorlog 2 (nat (\<lceil>1 / x\<rceil> - 1))))"

text \<open>Rounding of an exact result to the nearest float.\<close>

definition fl :: "rat \<Rightarrow> float" where
  "fl x = (if x = 0 then 0
           else let u = 2 powi (ilog2 \<bar>x\<bar> - 52)
                in of_int (round_half_even (x / u)) * u)"

definition fadd :: "float \<Rightarrow> float \<Rightarrow> float" where
  "fadd a b = fl (a + b)"

definition fsub :: "float \<Rightarrow> float \<Rightarrow> float" where
  "fsub a b = fl (a - b)"

definition fmul :: "float \<Rightarrow> float \<Rightarrow> float" where
  "fmul a b = fl (a * b)"

definition fdiv :: "float \<Rightarrow> float \<Rightarrow> float" where
  "fdiv a b = fl (a / b)"

text \<open>The conversion of a Python \<^verbatim>\<open>int\<close> in a mixed \<^verbatim>\<open>float * int\<close> product.\<close>

definition float_of_int :: "int \<Rightarrow> float" where
  "float_of_int n = fl (of_int n)"

text \<open>
  \<^verbatim>\<open>sum(...)\<close> over floats starts from the integer 0 and adds from the left. (CPython
  from 3.12 on compensates the rounding errors of the partial sums; both agree whenever
  the partial sums are exact, as they are for every concrete cart below.)
\<close>

definition py_sum :: "float list \<Rightarrow> float" where
  "py_sum xs = foldl fadd 0 xs"

text \<open>
  \<^verbatim>\<open>f"{x:.2f}"\<close> prints the two-decimal number nearest to the exact value of \<open>x\<close>, ties
  to even. The printed text is represented by the decimal number it denotes.
  \<^verbatim>\<open>float(text)\<close> reads such a text back as the nearest float. The currency symbol
  that \<^verbatim>\<open>update_totals\<close> puts in front and \<^verbatim>\<open>process_payment\<close> strips again leaves the
  number as it is unless the symbol occurs inside the digits; the default \<^verbatim>\<open>PKR\<close> does
  not.
\<close>

definition format_2f :: "float \<Rightarrow> rat" where
  "format_2f x = of_int (round_half_even (x * 100)) / 100"

definition float_of_text :: "rat \<Rightarrow> float" where
  "float_of_text d = fl d"

text \<open>Python's \<^verbatim>\<open>round(x, 2)\<close> is the same correctly rounded two-decimal value, as a float.\<close>

definition round2 :: "float \<Rightarrow> float" where
  "round2 x = float_of_text (format_2f x)"

text \<open>
  The builtin \<^verbatim>\<open>float(str)\<close> is a parameter \<open>py_float\<close> of the functions that call it
  (\<open>None\<close> stands for \<^verbatim>\<open>ValueError\<close>). For concrete inputs it is instantiated by
  \<open>float_of_decimal\<close>, the builtin restricted to plain decimal literals: an optional sign,
  digits, and an optional point followed by digits.
\<close>

definition digit_of :: "char \<Rightarrow> nat option" where
  "digit_of c = (let n = of_char c :: nat in if 48 \<le> n \<and> n \<le> 57 then Some (n - 48) else None)"

fun digits_value :: "nat \<Rightarrow> string \<Rightarrow> nat option" where
  "digits_value acc [] = Some acc"
| "digits_value acc (c # cs) =
     (case digit_of c of None \<Rightarrow> None | Some d \<Rightarrow> digits_value (10 * acc + d) cs)"

definition float_of_decimal :: "string \<Rightarrow> float option" where
  "float_of_decimal s =
     (let neg = (case s of [] \<Rightarrow> False | c # r \<Rightarrow> c = CHR ''-'');
          body = (case s of [] \<Rightarrow> [] | c # r \<Rightarrow> if c = CHR ''-'' \<or> c = CHR ''+'' then r else s);
          ip = takeWhile (\<lambda>c. c \<noteq> CHR ''.'') body;
          fp = drop 1 (dropWhile (\<lambda>c. c \<noteq> CHR ''.'') body)
      in if ip = [] \<and> fp = [] then None
         else (case digits_value 0 ip of
                 None \<Rightarrow> None
               | Some i \<Rightarrow>
                   (case digits_value 0 fp of
                      None \<Rightarrow> None
                    | Some f \<Rightarrow>
                        Some (fl ((if neg then - 1 else 1) *
                                  (of_nat i + of_nat f / 10 ^ length fp))))))"

section \<open>The cart and the calculator\<close>

text \<open>A cart line is the dictionary that \<^verbatim>\<open>add_to_cart\<close> appends to \<^verbatim>\<open>self.cart\<close>.\<close>

record cart_item =
  item_id :: int
  item_name :: string
  item_price :: float
  item_cost :: float
  item_qty :: int

text \<open>\<^verbatim>\<open>item['price'] * item['qty']\<close>\<close>

definition line_total :: "cart_item \<Rightarrow> float" where
  "line_total item = fmul (item_price item) (float_of_int (item_qty item))"

text \<open>\<^verbatim>\<open>sum(item['price'] * item['qty'] for item in self.cart)\<close>\<close>

definition cart_subtotal :: "cart_item list \<Rightarrow> float" where
  "cart_subtotal cart = py_sum (map line_total cart)"

text \<open>\<^verbatim>\<open>ModernPOSApp.parse_discount\<close>\<close>

definition parse_discount :: "(string \<Rightarrow> float option) \<Rightarrow> string \<Rightarrow> float \<Rightarrow> float" where
  "parse_discount py_float discount_text subtotal =
     (if discount_text = [] then 0
      else if last discount_text = CHR ''%'' then
        (case py_float (butlast discount_text) of
           None \<Rightarrow> 0
         | Some percentage \<Rightarrow>
             if percentage < 0 \<or> percentage > 100 then 0
             else fmul subtotal (fdiv percentage 100))
      else
        (case py_float discount_text of
           None \<Rightarrow> 0
         | Some amount \<Rightarrow> if amount < 0 then 0 else amount))"

text \<open>The four amounts that \<^verbatim>\<open>update_totals\<close> computes before it formats them.\<close>

record totals =
  t_subtotal :: float
  t_discount :: float
  t_tax :: float
  t_total :: float

definition compute_totals ::
  "(string \<Rightarrow> float option) \<Rightarrow> cart_item list \<Rightarrow> string \<Rightarrow> float \<Rightarrow> totals" where
  "compute_totals py_float cart discount_text tax_percent =
     (let subtotal = cart_subtotal cart;
          discount_amount = parse_discount py_float discount_text subtotal;
          tax_amount = fmul (fsub subtotal discount_amount) (fdiv tax_percent 100);
          total_amount = fadd (fsub subtotal discount_amount) tax_amount
      in \<lparr>t_subtotal = subtotal, t_discount = discount_amount,
          t_tax = tax_amount, t_total = total_amount\<rparr>)"

section \<open>The database\<close>

text \<open>
  The tables that \<^verbatim>\<open>DataManager.save_sale\<close> reads and writes. \<open>products\<close> is keyed by
  the primary key \<^verbatim>\<open>id\<close>; of a product row the columns the sale touches are kept. The
  two sequences are the \<^verbatim>\<open>AUTOINCREMENT\<close> counters of \<^verbatim>\<open>sales\<close> and \<^verbatim>\<open>sale_items\<close>.
  The \<^verbatim>\<open>created_at\<close> defaults are left out.
\<close>

record product_row =
  p_name :: string
  p_price :: float
  p_stock :: int

record sale_row =
  s_id :: int
  s_receipt_number :: string
  s_customer_id :: "int option"
  s_subtotal :: float
  s_discount :: float
  s_tax :: float
  s_total :: float
  s_paid :: float
  s_change_amount :: float
  s_payment_method :: string
  s_cashier_name :: string

record sale_item_row =
  si_id :: int
  si_sale_id :: int
  si_product_id :: int
  si_quantity :: int
  si_unit_price :: float
  si_total_price :: float

record database =
  products :: "int \<rightharpoonup> product_row"
  sales :: "sale_row list"
  sale_items :: "sale_item_row list"
  sales_seq :: int
  sale_items_seq :: int

text \<open>
  A connection holds the committed database and the state the open transaction works
  on. Leaving the \<^verbatim>\<open>with\<close> block by an exception rolls back, leaving it normally commits.
\<close>

record connection =
  committed :: database
  working :: database

definition get_conn :: "database \<Rightarrow> connection" where
  "get_conn db = \<lparr>committed = db, working = db\<rparr>"

definition rollback :: "connection \<Rightarrow> connection" where
  "rollback conn = conn\<lparr>working := committed conn\<rparr>"

definition commit :: "connection \<Rightarrow> connection" where
  "commit conn = conn\<lparr>committed := working conn\<rparr>"

text \<open>
  Every failure of \<^verbatim>\<open>save_sale\<close> reaches the caller as a \<^verbatim>\<open>ValueError\<close>; the
  constructors keep the data its message is formatted from:
  \<^verbatim>\<open>Product {name} not found\<close>,
  \<^verbatim>\<open>Not enough stock for {name}. Available: {current_stock}, Requested: {qty}\<close> and
  \<^verbatim>\<open>Database error: {e}\<close>.
\<close>

datatype value_error =
  ProductNotFound string
| NotEnoughStock string int int
| DatabaseError string

text \<open>\<^verbatim>\<open>str(n)\<close> of a non-negative integer.\<close>

definition digit_char :: "nat \<Rightarrow> char" where
  "digit_char d = ''0123456789'' ! d"

function str_nat :: "nat \<Rightarrow> string" where
  "str_nat n = (if n < 10 then [digit_char n] else str_nat (n div 10) @ [digit_char (n mod 10)])"
  by pat_completeness auto
termination
  by (relation "measure id") auto

declare str_nat.simps [simp del]

text \<open>\<^verbatim>\<open>receipt_number = f"R{timestamp}{random_part}"\<close>\<close>

definition make_receipt_number :: "nat \<Rightarrow> nat \<Rightarrow> string" where
  "make_receipt_number timestamp random_part = ''R'' @ str_nat timestamp @ str_nat random_part"

text \<open>The first loop of \<^verbatim>\<open>save_sale\<close>: the first line that fails decides the error.\<close>

fun check_stock :: "database \<Rightarrow> cart_item list \<Rightarrow> value_error option" where
  "check_stock db [] = None"
| "check_stock db (item # rest) =
     (case products db (item_id item) of
        None \<Rightarrow> Some (ProductNotFound (item_name item))
      | Some result \<Rightarrow>
          if p_stock result < item_qty item
          then Some (NotEnoughStock (item_name item) (p_stock result) (item_qty item))
          else check_stock db rest)"

text \<open>
  \<^verbatim>\<open>INSERT INTO sales\<close>: the column \<^verbatim>\<open>receipt_number\<close> is \<^verbatim>\<open>UNIQUE\<close>, so the insert
  raises \<^verbatim>\<open>sqlite3.IntegrityError\<close> when the number is taken. The result carries
  \<^verbatim>\<open>cursor.lastrowid\<close>.
\<close>

definition insert_sale :: "database \<Rightarrow> sale_row \<Rightarrow> string + (database \<times> int)" where
  "insert_sale db row =
     (if s_receipt_number row \<in> set (map s_receipt_number (sales db))
      then Inl ''UNIQUE constraint failed: sales.receipt_number''
      else let new_id = sales_seq db + 1
           in Inr (db\<lparr>sales := sales db @ [row\<lparr>s_id := new_id\<rparr>], sales_seq := new_id\<rparr>, new_id))"

text \<open>
  The second loop: per line one \<^verbatim>\<open>INSERT INTO sale_items\<close> and one
  \<^verbatim>\<open>UPDATE products SET stock = stock - ? WHERE id = ?\<close>. Foreign keys are switched on,
  so the insert fails for a product that does not exist.
\<close>

fun insert_items :: "int \<Rightarrow> cart_item list \<Rightarrow> database \<Rightarrow> string + database" where
  "insert_items sale_id [] db = Inr db"
| "insert_items sale_id (item # rest) db =
     (case products db (item_id item) of
        None \<Rightarrow> Inl ''FOREIGN KEY constraint failed''
      | Some p \<Rightarrow>
          insert_items sale_id rest
            (db\<lparr>sale_items := sale_items db @
                  [\<lparr>si_id = sale_items_seq db + 1, si_sale_id = sale_id,
                    si_product_id = item_id item, si_quantity = item_qty item,
                    si_unit_price = item_price item, si_total_price = line_total item\<rparr>],
                sale_items_seq := sale_items_seq db + 1,
                products := (products db)(item_id item \<mapsto> p\<lparr>p_stock := p_stock p - item_qty item\<rparr>)\<rparr>))"

text \<open>
  \<^verbatim>\<open>DataManager.save_sale\<close>. The clock and the random number are inputs. The result is
  the returned pair \<^verbatim>\<open>(sale_id, receipt_number)\<close> or the error raised, together with the
  database as it is persisted afterwards. The connection is taken to open, and the
  stock column to hold integers (it is never \<^verbatim>\<open>NULL\<close>).
\<close>

definition save_sale ::
  "database \<Rightarrow> nat \<Rightarrow> nat \<Rightarrow> cart_item list \<Rightarrow> float \<Rightarrow> float \<Rightarrow> float \<Rightarrow> float \<Rightarrow> float \<Rightarrow>
   string \<Rightarrow> string \<Rightarrow> int option \<Rightarrow> (value_error + int \<times> string) \<times> database" where
  "save_sale db timestamp random_part cart subtotal discount tax total_amount paid
     payment_method cashier_name customer_id =
     (let receipt_number = make_receipt_number timestamp random_part;
          change = fsub paid total_amount;
          conn = get_conn db
      in case check_stock (working conn) cart of
           Some e \<Rightarrow> (Inl e, committed (rollback conn))
         | None \<Rightarrow>
             (case insert_sale (working conn)
                     \<lparr>s_id = 0, s_receipt_number = receipt_number, s_customer_id = customer_id,
                      s_subtotal = subtotal, s_discount = discount, s_tax = tax,
                      s_total = total_amount, s_paid = paid, s_change_amount = change,
                      s_payment_method = payment_method, s_cashier_name = cashier_name\<rparr> of
                Inl e \<Rightarrow> (Inl (DatabaseError e), committed (rollback conn))
              | Inr (db1, sale_id) \<Rightarrow>
                  (case insert_items sale_id cart db1 of
                     Inl e \<Rightarrow> (Inl (DatabaseError e), committed (rollback conn))
                   | Inr db2 \<Rightarrow>
                       (Inr (sale_id, receipt_number),
                        committed (commit (conn\<lparr>working := db2\<rparr>))))))"

section \<open>The checkout of the application\<close>

text \<open>
  The part of \<^verbatim>\<open>ModernPOSApp\<close> that a checkout reads and writes: the cart, the discount
  entry, the tax rate, the customer, the cashier of the settings, the four labels that
  \<^verbatim>\<open>update_totals\<close> sets, and the database.
\<close>

record app =
  app_cart :: "cart_item list"
  discount_var :: string
  tax_percent :: float
  selected_customer :: "int option"
  cashier :: string
  subtotal_var :: rat
  discount_amount_var :: rat
  tax_var :: rat
  total_var :: rat
  app_db :: database

text \<open>\<^verbatim>\<open>ModernPOSApp.update_totals\<close>\<close>

definition update_totals :: "(string \<Rightarrow> float option) \<Rightarrow> app \<Rightarrow> app" where
  "update_totals py_float st =
     (let t = compute_totals py_float (app_cart st) (discount_var st) (tax_percent st)
      in st\<lparr>subtotal_var := format_2f (t_subtotal t),
             discount_amount_var := format_2f (t_discount t),
             tax_var := format_2f (t_tax t),
             total_var := format_2f (t_total t)\<rparr>)"

text \<open>\<^verbatim>\<open>ModernPOSApp.new_sale\<close>, whose \<^verbatim>\<open>refresh_cart\<close> ends in \<^verbatim>\<open>update_totals\<close>.\<close>

definition new_sale :: "(string \<Rightarrow> float option) \<Rightarrow> app \<Rightarrow> app" where
  "new_sale py_float st =
     update_totals py_float (st\<lparr>app_cart := [], discount_var := ''0'', selected_customer := None\<rparr>)"

text \<open>
  What the operator does in \<^verbatim>\<open>EnhancedPaymentDialog\<close>: press \<^verbatim>\<open>Process Payment\<close> with
  the amount entry holding a number (or something that is none) and a payment method
  selected, or press \<^verbatim>\<open>Cancel\<close>.
\<close>

datatype dialog_event =
  ProcessPayment "float option" string
| Cancel

text \<open>
  \<^verbatim>\<open>EnhancedPaymentDialog.process_payment\<close> and \<^verbatim>\<open>cancel\<close>, run over the operator's
  actions until the dialog closes: \<^verbatim>\<open>self.result\<close> starts as \<^verbatim>\<open>None\<close>, an amount below the
  total or an unreadable amount shows an error box and leaves the dialog open.
\<close>

fun payment_dialog :: "float \<Rightarrow> dialog_event list \<Rightarrow> (float \<times> string) option" where
  "payment_dialog total_amount [] = None"
| "payment_dialog total_amount (Cancel # rest) = None"
| "payment_dialog total_amount (ProcessPayment None pay_method # rest) =
     payment_dialog total_amount rest"
| "payment_dialog total_amount (ProcessPayment (Some paid) pay_method # rest) =
     (if paid < total_amount then payment_dialog total_amount rest else Some (paid, pay_method))"

text \<open>
  How a checkout ends: with the notice \<^verbatim>\<open>Cart is empty!\<close>, with the silent return of
  \<^verbatim>\<open>process_payment\<close> on an empty cart, with a dialog closed without a payment, with the
  error box of a failed sale, or with the success box of a completed one.
\<close>

datatype outcome =
  CartEmpty
| Ignored
| NoPayment
| SaleFailed value_error
| SaleCompleted int string

text \<open>\<^verbatim>\<open>ModernPOSApp.complete_sale\<close>\<close>

definition complete_sale ::
  "(string \<Rightarrow> float option) \<Rightarrow> app \<Rightarrow> nat \<Rightarrow> nat \<Rightarrow> float \<Rightarrow> float \<Rightarrow> string \<Rightarrow>
   float \<Rightarrow> float \<Rightarrow> float \<Rightarrow> outcome \<times> app" where
  "complete_sale py_float st timestamp random_part total_amount paid_amount payment_method
     subtotal discount_amount tax_amount =
     (case save_sale (app_db st) timestamp random_part (app_cart st) subtotal discount_amount
             tax_amount total_amount paid_amount payment_method (cashier st)
             (selected_customer st) of
        (Inr (sale_id, receipt_number), db') \<Rightarrow>
          (SaleCompleted sale_id receipt_number, new_sale py_float (st\<lparr>app_db := db'\<rparr>))
      | (Inl e, db') \<Rightarrow> (SaleFailed e, st\<lparr>app_db := db'\<rparr>))"

text \<open>\<^verbatim>\<open>ModernPOSApp.process_payment\<close>\<close>

definition process_payment ::
  "(string \<Rightarrow> float option) \<Rightarrow> app \<Rightarrow> dialog_event list \<Rightarrow> nat \<Rightarrow> nat \<Rightarrow> outcome \<times> app" where
  "process_payment py_float st events timestamp random_part =
     (if app_cart st = [] then (Ignored, st)
      else
        let total_amount = float_of_text (total_var st);
            subtotal = float_of_text (subtotal_var st);
            discount = float_of_text (discount_amount_var st);
            tax = float_of_text (tax_var st)
        in case payment_dialog total_amount events of
             None \<Rightarrow> (NoPayment, st)
           | Some (paid_amount, payment_method) \<Rightarrow>
               complete_sale py_float st timestamp random_part total_amount paid_amount
                 payment_method subtotal discount tax)"

text \<open>\<^verbatim>\<open>ModernPOSApp.checkout\<close>: an empty cart is answered by the notice \<^verbatim>\<open>Cart is empty!\<close>.\<close>

definition checkout ::
  "(string \<Rightarrow> float option) \<Rightarrow> app \<Rightarrow> dialog_event list \<Rightarrow> nat \<Rightarrow> nat \<Rightarrow> outcome \<times> app" where
  "checkout py_float st events timestamp random_part =
     (if app_cart st = [] then (CartEmpty, st)
      else process_payment py_float st events timestamp random_part)"

section \<open>Vocabulary of the statements\<close>

text \<open>
  A line is \<open>missing\<close> when its product is not in the products table, \<open>over_stock\<close> when
  it asks for more than the persisted stock, and \<open>offending\<close> when it is one or the other.
  \<open>stock_error\<close> is the error that the first loop of \<^verbatim>\<open>save_sale\<close> raises at an offending
  line. \<open>stock_of\<close> reads the stock column, and \<open>sale_record\<close> is the row that
  \<^verbatim>\<open>INSERT INTO sales\<close> writes.
\<close>

definition missing :: "database \<Rightarrow> cart_item \<Rightarrow> bool" where
  "missing db item = (products db (item_id item) = None)"

definition over_stock :: "database \<Rightarrow> cart_item \<Rightarrow> bool" where
  "over_stock db item =
     (case products db (item_id item) of None \<Rightarrow> False | Some p \<Rightarrow> p_stock p < item_qty item)"

definition offending :: "database \<Rightarrow> cart_item \<Rightarrow> bool" where
  "offending db item = (missing db item \<or> over_stock db item)"

definition stock_error :: "database \<Rightarrow> cart_item \<Rightarrow> value_error" where
  "stock_error db item =
     (case products db (item_id item) of
        None \<Rightarrow> ProductNotFound (item_name item)
      | Some p \<Rightarrow> NotEnoughStock (item_name item) (p_stock p) (item_qty item))"

definition stock_of :: "database \<Rightarrow> int \<Rightarrow> int" where
  "stock_of db pid = (case products db pid of None \<Rightarrow> 0 | Some p \<Rightarrow> p_stock p)"

definition sale_record ::
  "int \<Rightarrow> string \<Rightarrow> int option \<Rightarrow> float \<Rightarrow> float \<Rightarrow> float \<Rightarrow> float \<Rightarrow> float \<Rightarrow> string \<Rightarrow> string \<Rightarrow>
   sale_row" where
  "sale_record sale_id receipt_number customer_id subtotal discount tax total_amount paid
     payment_method cashier_name =
     \<lparr>s_id = sale_id, s_receipt_number = receipt_number, s_customer_id = customer_id,
      s_subtotal = subtotal, s_discount = discount, s_tax = tax, s_total = total_amount,
      s_paid = paid, s_change_amount = fsub paid total_amount,
      s_payment_method = payment_method, s_cashier_name = cashier_name\<rparr>"

section \<open>Concrete shops, carts and sessions\<close>

text \<open>The inputs at which the statements below are evaluated.\<close>

definition line :: "int \<Rightarrow> string \<Rightarrow> float \<Rightarrow> int \<Rightarrow> cart_item" where
  "line pid name price qty =
     \<lparr>item_id = pid, item_name = name, item_price = price, item_cost = 0, item_qty = qty\<rparr>"

definition shop_db :: database where
  "shop_db =
     \<lparr>products = [1 \<mapsto> \<lparr>p_name = ''Cola'', p_price = 3 / 2, p_stock = 3\<rparr>,
                  2 \<mapsto> \<lparr>p_name = ''Chips'', p_price = 2, p_stock = 10\<rparr>,
                  3 \<mapsto> \<lparr>p_name = ''Gum'', p_price = 1, p_stock = 5\<rparr>],
      sales = [], sale_items = [], sales_seq = 0, sale_items_seq = 0\<rparr>"

text \<open>The cart of Scenario A: two units at 1.50 and one at 2.00.\<close>

text \<open>The shop after a first sale, whose receipt number is taken.\<close>

definition busy_db :: database where
  "busy_db = shop_db\<lparr>sales := [sale_record 1 ''R17000000001234'' None 2 0 0 2 2 ''Cash'' ''Ann''],
                       sales_seq := 1\<rparr>"

definition cart_a :: "cart_item list" where
  "cart_a = [line 1 ''Cola'' (3 / 2) 2, line 2 ''Chips'' 2 1]"

definition app_a :: app where
  "app_a =
     \<lparr>app_cart = cart_a, discount_var = ''10%'', tax_percent = 5, selected_customer = None,
      cashier = ''Ann'', subtotal_var = 0, discount_amount_var = 0, tax_var = 0, total_var = 0,
      app_db = shop_db\<rparr>"

text \<open>The session of Scenario A with a flat discount of 10 typed in.\<close>

definition app_flat :: app where
  "app_flat = app_a\<lparr>discount_var := ''10''\<rparr>"

text \<open>A session with one unit at 1.00, a discount of 10.4 percent and a tax of 4 percent.\<close>

definition app_gum :: app where
  "app_gum = app_a\<lparr>app_cart := [line 3 ''Gum'' 1 1], discount_var := ''10.4%'', tax_percent := 4\<rparr>"

section \<open>Properties of the float operations\<close>

lemma rhe_of_int: "round_half_even (of_int n) = n"
  by (simp add: round_half_even_def)

lemma rhe_cases: "round_half_even x = \<lfloor>x\<rfloor> \<or> round_half_even x = \<lfloor>x\<rfloor> + 1"
  by (simp add: round_half_even_def Let_def)

lemma rhe_mono: "x \<le> y \<Longrightarrow> round_half_even x \<le> round_half_even y"
proof -
  assume xy: "x \<le> y"
  have fxy: "\<lfloor>x\<rfloor> \<le> \<lfloor>y\<rfloor>" using xy by (rule floor_mono)
  show ?thesis
  proof (cases "\<lfloor>x\<rfloor> = \<lfloor>y\<rfloor>")
    case True
    then show ?thesis using xy
      by (auto simp add: round_half_even_def Let_def)
  next
    case False
    then have "\<lfloor>x\<rfloor> + 1 \<le> \<lfloor>y\<rfloor>" using fxy by simp
    moreover have "round_half_even x \<le> \<lfloor>x\<rfloor> + 1" using rhe_cases [of x] by auto
    moreover have "\<lfloor>y\<rfloor> \<le> round_half_even y" using rhe_cases [of y] by auto
    ultimately show ?thesis by linarith
  qed
qed

lemma rhe_minus: "round_half_even (- x) = - round_half_even x"
proof (cases "x = of_int \<lfloor>x\<rfloor>")
  case True
  then obtain n where "x = of_int n" ..
  then have "- x = of_int (- n)" by simp
  then show ?thesis using \<open>x = of_int n\<close> rhe_of_int by metis
next
  case False
  then have "\<lceil>x\<rceil> = \<lfloor>x\<rfloor> + 1" by (simp add: ceiling_altdef)
  then have c: "\<lfloor>- x\<rfloor> = - \<lfloor>x\<rfloor> - 1" by (simp add: ceiling_def)
  show ?thesis
    unfolding round_half_even_def Let_def c
    by (auto simp add: algebra_simps)
qed

lemma ilog2_bounds:
  assumes "0 < x"
  shows "2 powi (ilog2 x) \<le> x" and "x < 2 powi (ilog2 x + 1)"
proof -
  have "2 powi (ilog2 x) \<le> x \<and> x < 2 powi (ilog2 x + 1)"
  proof (cases "1 \<le> x")
    case True
    define n where "n = nat \<lfloor>x\<rfloor>"
    define L where "L = floorlog 2 n"
    have n1: "0 < n" using True by (simp add: n_def)
    have b: "2 ^ (L - 1) \<le> n" "n < 2 ^ L"
      using floorlog_bounds [of n 2] n1 by (simp_all add: L_def)
    have L1: "1 \<le> L" using b(2) n1 by (cases L) auto
    have il: "ilog2 x = int (L - 1)" using True L1 by (simp add: ilog2_def n_def L_def)
    have nx: "rat_of_nat n \<le> x" using True by (simp add: n_def)
    have xn: "x < rat_of_nat n + 1" using True by (simp add: n_def) linarith
    have "(2::rat) ^ (L - 1) \<le> rat_of_nat n"
      using b(1) by (metis of_nat_le_iff of_nat_numeral of_nat_power)
    then have lo: "(2::rat) ^ (L - 1) \<le> x" using nx by linarith
    have "n + 1 \<le> 2 ^ L" using b(2) by simp
    then have "rat_of_nat (n + 1) \<le> 2 ^ L"
      by (metis of_nat_le_iff of_nat_numeral of_nat_power)
    then have hi: "x < (2::rat) ^ L" using xn by simp
    have p1: "(2::rat) powi ilog2 x = 2 ^ (L - 1)"
      unfolding il by (rule power_int_of_nat)
    have "ilog2 x + 1 = int L" using il L1 by simp
    then have p2: "(2::rat) powi (ilog2 x + 1) = 2 ^ L"
      by (simp only: power_int_of_nat)
    show ?thesis using lo hi unfolding p1 p2 by blast
  next
    case False
    define y where "y = 1 / x"
    define m where "m = \<lceil>y\<rceil>"
    define n where "n = nat (m - 1)"
    define L where "L = floorlog 2 n"
    have x1: "x < 1" using False by simp
    have y1: "1 < y" using assms x1 by (simp add: y_def)
    have m2: "2 \<le> m" using y1 by (simp add: m_def)
    have n1: "0 < n" using m2 by (simp add: n_def)
    have b: "2 ^ (L - 1) \<le> n" "n < 2 ^ L"
      using floorlog_bounds [of n 2] n1 by (simp_all add: L_def)
    have L1: "1 \<le> L" using b(2) n1 by (cases L) auto
    have il: "ilog2 x = - int L" using False by (simp add: ilog2_def n_def L_def m_def y_def)
    have ym: "y \<le> of_int m" by (simp add: m_def)
    have my: "of_int m - 1 < y" unfolding m_def by linarith
    have mn: "of_int m = rat_of_nat n + 1" using m2 by (simp add: n_def)
    have "n + 1 \<le> 2 ^ L" using b(2) by simp
    then have "rat_of_nat (n + 1) \<le> 2 ^ L"
      by (metis of_nat_le_iff of_nat_numeral of_nat_power)
    then have yL: "y \<le> 2 ^ L" using ym mn by simp
    have "(2::rat) ^ (L - 1) \<le> rat_of_nat n"
      using b(1) by (metis of_nat_le_iff of_nat_numeral of_nat_power)
    then have Ly: "(2::rat) ^ (L - 1) < y" using my mn by linarith
    have lo: "1 / 2 ^ L \<le> x"
    proof -
      have "1 / 2 ^ L \<le> 1 / y" using yL y1 by (simp add: frac_le)
      then show ?thesis using assms by (simp add: y_def)
    qed
    have hi: "x < 1 / 2 ^ (L - 1)"
    proof -
      have "1 / y < 1 / 2 ^ (L - 1)" using Ly by (simp add: frac_less2)
      then show ?thesis using assms by (simp add: y_def)
    qed
    have e0: "(2::rat) powi (- int k) = 1 / 2 ^ k" for k
      by (simp only: power_int_minus power_int_of_nat inverse_eq_divide)
    have e1: "(2::rat) powi (- int L) = 1 / 2 ^ L" by (rule e0)
    have "- int L + 1 = - int (L - 1)" using L1 by simp
    then have e2: "(2::rat) powi (- int L + 1) = 1 / 2 ^ (L - 1)"
      by (simp only: e0)
    show ?thesis using lo hi unfolding il e1 e2 by blast
  qed
  then show "2 powi (ilog2 x) \<le> x" and "x < 2 powi (ilog2 x + 1)" by simp_all
qed

lemma powi_mono: "a \<le> b \<Longrightarrow> (2::rat) powi a \<le> 2 powi b"
  by (rule power_int_increasing) simp_all

lemma powi_pos: "0 < (2::rat) powi a"
  by simp

lemma powi_split: "(2::rat) powi e = 2 ^ 52 * 2 powi (e - 52)"
proof -
  have "(2::rat) powi (52 + (e - 52)) = 2 powi 52 * 2 powi (e - 52)"
    by (rule power_int_add) simp
  then show ?thesis by simp
qed

lemma powi_Suc: "(2::rat) powi (e + 1) = 2 * 2 powi e"
proof -
  have "(2::rat) powi (1 + e) = 2 powi 1 * 2 powi e"
    by (rule power_int_add) simp
  then show ?thesis by (simp add: add.commute)
qed

lemma ilog2_unique:
  assumes "0 < x" "2 powi k \<le> x" "x < 2 powi (k + 1)"
  shows "ilog2 x = k"
proof (rule ccontr)
  assume ne: "ilog2 x \<noteq> k"
  show False
  proof (cases "ilog2 x < k")
    case True
    then have "2 powi (ilog2 x + 1) \<le> (2::rat) powi k" by (intro powi_mono) simp
    then show False using ilog2_bounds(2) [OF assms(1)] assms(2) by linarith
  next
    case False
    then have "k + 1 \<le> ilog2 x" using ne by simp
    then have "2 powi (k + 1) \<le> (2::rat) powi ilog2 x" by (rule powi_mono)
    then show False using ilog2_bounds(1) [OF assms(1)] assms(3) by linarith
  qed
qed

lemma ilog2_mono:
  assumes "0 < x" "x \<le> y"
  shows "ilog2 x \<le> ilog2 y"
proof (rule ccontr)
  assume "\<not> ilog2 x \<le> ilog2 y"
  then have "ilog2 y + 1 \<le> ilog2 x" by simp
  then have "2 powi (ilog2 y + 1) \<le> (2::rat) powi ilog2 x" by (rule powi_mono)
  moreover have "0 < y" using assms by simp
  ultimately show False
    using ilog2_bounds(1) [OF assms(1)] ilog2_bounds(2) [of y] assms(2) by linarith
qed

lemma fl_pos_eq:
  "0 < x \<Longrightarrow> fl x = of_int (round_half_even (x / 2 powi (ilog2 x - 52))) * 2 powi (ilog2 x - 52)"
  by (simp add: fl_def Let_def)

lemma scaled_bounds:
  assumes "0 < x"
  shows "2 ^ 52 \<le> x / 2 powi (ilog2 x - 52)" and "x / 2 powi (ilog2 x - 52) < 2 ^ 53"
proof -
  let ?u = "(2::rat) powi (ilog2 x - 52)"
  have u: "0 < ?u" by simp
  have "2 ^ 52 * ?u \<le> x"
    using ilog2_bounds(1) [OF assms] powi_split [of "ilog2 x"] by simp
  then show "2 ^ 52 \<le> x / ?u" using u by (simp add: pos_le_divide_eq)
  have "x < 2 * (2 ^ 52 * ?u)"
    using ilog2_bounds(2) [OF assms] powi_split [of "ilog2 x"] powi_Suc [of "ilog2 x"] by simp
  then have "x < 2 ^ 53 * ?u" by simp
  then show "x / ?u < 2 ^ 53" using u by (simp add: pos_divide_less_eq)
qed

lemma mant_bounds:
  assumes "0 < x"
  shows "2 ^ 52 \<le> round_half_even (x / 2 powi (ilog2 x - 52))"
    and "round_half_even (x / 2 powi (ilog2 x - 52)) \<le> 2 ^ 53"
proof -
  let ?m = "x / 2 powi (ilog2 x - 52)"
  have "round_half_even (of_int (2 ^ 52)) \<le> round_half_even ?m"
    by (rule rhe_mono) (use scaled_bounds(1) [OF assms] in simp)
  then show "2 ^ 52 \<le> round_half_even ?m" by (simp only: rhe_of_int)
  have "round_half_even ?m \<le> round_half_even (of_int (2 ^ 53))"
    by (rule rhe_mono) (use scaled_bounds(2) [OF assms] in simp)
  then show "round_half_even ?m \<le> 2 ^ 53" by (simp only: rhe_of_int)
qed

lemma fl_bounds:
  assumes "0 < x"
  shows "2 powi ilog2 x \<le> fl x" and "fl x \<le> 2 powi (ilog2 x + 1)"
proof -
  let ?u = "(2::rat) powi (ilog2 x - 52)"
  let ?n = "round_half_even (x / ?u)"
  have u: "0 < ?u" by simp
  have f: "fl x = of_int ?n * ?u" using assms by (rule fl_pos_eq)
  have "(2::rat) ^ 52 \<le> of_int ?n"
    using mant_bounds(1) [OF assms] by (metis of_int_le_iff of_int_numeral of_int_power)
  then have "2 ^ 52 * ?u \<le> of_int ?n * ?u" using u by (simp only: mult_le_cancel_right_pos)
  then show "2 powi ilog2 x \<le> fl x" using powi_split [of "ilog2 x"] f by simp
  have "of_int ?n \<le> (2::rat) ^ 53"
    using mant_bounds(2) [OF assms] by (metis of_int_le_iff of_int_numeral of_int_power)
  then have "of_int ?n * ?u \<le> 2 ^ 53 * ?u" using u by (simp only: mult_le_cancel_right_pos)
  then show "fl x \<le> 2 powi (ilog2 x + 1)"
    using powi_split [of "ilog2 x"] powi_Suc [of "ilog2 x"] f by simp
qed

lemma fl_pos: "0 < x \<Longrightarrow> 0 < fl x"
  using fl_bounds(1) [of x] powi_pos [of "ilog2 x"] by linarith

lemma fl_zero: "fl 0 = 0"
  by (simp add: fl_def)

lemma fl_minus: "fl (- x) = - fl x"
  by (simp add: fl_def Let_def rhe_minus)

lemma fl_mono_pos:
  assumes "0 < x" "x \<le> y"
  shows "fl x \<le> fl y"
proof -
  have y: "0 < y" using assms by simp
  show ?thesis
  proof (cases "ilog2 x = ilog2 y")
    case True
    let ?u = "(2::rat) powi (ilog2 y - 52)"
    have u: "0 < ?u" by simp
    have "x / ?u \<le> y / ?u" using assms(2) u by (simp add: divide_right_mono)
    then have "round_half_even (x / ?u) \<le> round_half_even (y / ?u)" by (rule rhe_mono)
    then have "rat_of_int (round_half_even (x / ?u)) * ?u \<le> of_int (round_half_even (y / ?u)) * ?u"
      using u by (simp only: mult_le_cancel_right_pos of_int_le_iff)
    then show ?thesis using fl_pos_eq [OF assms(1)] fl_pos_eq [OF y] True by simp
  next
    case False
    then have "ilog2 x + 1 \<le> ilog2 y" using ilog2_mono [OF assms] by simp
    then have "2 powi (ilog2 x + 1) \<le> (2::rat) powi ilog2 y" by (rule powi_mono)
    then show ?thesis using fl_bounds(2) [OF assms(1)] fl_bounds(1) [OF y] by linarith
  qed
qed

lemma fl_mono: "x \<le> y \<Longrightarrow> fl x \<le> fl y"
proof -
  assume xy: "x \<le> y"
  consider "0 < x" | "x = 0" | "x < 0" "0 \<le> y" | "x < 0" "y < 0" by linarith
  then show ?thesis
  proof cases
    case 1
    then show ?thesis using xy by (rule fl_mono_pos)
  next
    case 2
    then show ?thesis using xy fl_pos [of y] by (cases "y = 0") (simp_all add: fl_zero less_eq_rat_def)
  next
    case 3
    have "fl x < 0" using fl_pos [of "- x"] 3(1) by (simp add: fl_minus)
    moreover have "0 \<le> fl y" using fl_pos [of y] 3(2) by (cases "y = 0") (simp_all add: fl_zero less_eq_rat_def)
    ultimately show ?thesis by linarith
  next
    case 4
    have "fl (- y) \<le> fl (- x)" by (rule fl_mono_pos) (use 4 xy in simp_all)
    then show ?thesis by (simp add: fl_minus)
  qed
qed

lemma fl_nonneg: "0 \<le> x \<Longrightarrow> 0 \<le> fl x"
  using fl_mono [of 0 x] by (simp add: fl_zero)

lemma fl_idem_pos:
  assumes "0 < x"
  shows "fl (fl x) = fl x"
proof -
  let ?e = "ilog2 x"
  let ?u = "(2::rat) powi (?e - 52)"
  let ?n = "round_half_even (x / ?u)"
  have u: "0 < ?u" by simp
  have f: "fl x = of_int ?n * ?u" using assms by (rule fl_pos_eq)
  have fp: "0 < fl x" using assms by (rule fl_pos)
  show ?thesis
  proof (cases "fl x < 2 powi (?e + 1)")
    case True
    have e: "ilog2 (fl x) = ?e"
      by (rule ilog2_unique [OF fp fl_bounds(1) [OF assms] True])
    have "fl x / ?u = of_int ?n" using f u by simp
    then have "fl (fl x) = of_int (round_half_even (of_int ?n)) * ?u"
      using fl_pos_eq [OF fp] e by simp
    then show ?thesis using f by (simp only: rhe_of_int)
  next
    case False
    then have v: "fl x = 2 powi (?e + 1)" using fl_bounds(2) [OF assms] by linarith
    have "fl x < 2 powi (?e + 1 + 1)"
      using v powi_Suc [of "?e + 1"] powi_pos [of "?e + 1"] by linarith
    then have e: "ilog2 (fl x) = ?e + 1"
      using ilog2_unique [OF fp, of "?e + 1"] v by simp
    have "fl x = 2 ^ 52 * 2 powi (?e + 1 - 52)" using v powi_split [of "?e + 1"] by simp
    then have "fl x / 2 powi (?e + 1 - 52) = of_int (2 ^ 52)" by simp
    then have "fl (fl x) = of_int (round_half_even (of_int (2 ^ 52))) * 2 powi (?e + 1 - 52)"
      using fl_pos_eq [OF fp] e by simp
    then have "fl (fl x) = 2 ^ 52 * 2 powi (?e + 1 - 52)" by (simp only: rhe_of_int) simp
    then show ?thesis using v powi_split [of "?e + 1"] by simp
  qed
qed

lemma fl_idem: "fl (fl x) = fl x"
proof -
  consider "0 < x" | "x = 0" | "x < 0" by linarith
  then show ?thesis
  proof cases
    case 1 then show ?thesis by (rule fl_idem_pos)
  next
    case 2 then show ?thesis by (simp add: fl_zero)
  next
    case 3
    then have "fl (fl (- x)) = fl (- x)" by (intro fl_idem_pos) simp
    then show ?thesis by (simp add: fl_minus)
  qed
qed


lemma fl_eval:
  assumes "0 < x" "2 powi e \<le> x" "x < 2 powi (e + 1)"
  shows "fl x = of_int (round_half_even (x / 2 powi (e - 52))) * 2 powi (e - 52)"
  using fl_pos_eq [OF assms(1)] ilog2_unique [OF assms] by simp

lemma floor_rat_numeral: "\<lfloor>numeral a / numeral b :: rat\<rfloor> = numeral a div numeral b"
  by (metis floor_divide_of_int_eq of_int_numeral)

lemma fsub_nonneg: "b \<le> a \<Longrightarrow> 0 \<le> fsub a b"
  unfolding fsub_def by (rule fl_nonneg) simp

lemma fsub_neg: "a < b \<Longrightarrow> fsub a b < 0"
proof -
  assume "a < b"
  then have "0 < fl (b - a)" by (intro fl_pos) simp
  moreover have "fl (a - b) = - fl (b - a)" using fl_minus [of "b - a"] by simp
  ultimately show ?thesis by (simp add: fsub_def)
qed

section \<open>Properties of save_sale\<close>

lemma conn_rollback: "committed (rollback (get_conn db)) = db"
  by (simp add: rollback_def get_conn_def)

lemma conn_commit: "committed (commit ((get_conn db)\<lparr>working := db2\<rparr>)) = db2"
  by (simp add: commit_def get_conn_def)

lemma conn_working: "working (get_conn db) = db"
  by (simp add: get_conn_def)

lemma check_stock_find:
  "check_stock db cart = map_option (stock_error db) (find (offending db) cart)"
  by (induction cart)
     (auto simp add: offending_def missing_def over_stock_def stock_error_def split: option.splits)

lemma save_sale_rejected:
  assumes "check_stock db cart = Some e"
  shows "save_sale db ts rp cart sub dis tax tot paid pm cn cid = (Inl e, db)"
  using assms by (simp add: save_sale_def Let_def conn_rollback conn_working)

lemma find_offending:
  assumes "\<exists>item\<in>set cart. offending db item"
  obtains item where "find (offending db) cart = Some item" "item \<in> set cart" "offending db item"
proof -
  from assms have "find (offending db) cart \<noteq> None" by (auto simp add: find_None_iff)
  then obtain item where f: "find (offending db) cart = Some item" by auto
  then have "item \<in> set cart" "offending db item"
    by (auto simp add: find_Some_iff)
  with f show ?thesis by (rule that)
qed

lemma complete_sale_failed:
  assumes "save_sale (app_db st) ts rp (app_cart st) sub dis tax tot paid pm (cashier st)
             (selected_customer st) = (Inl e, app_db st)"
  shows "complete_sale pf st ts rp tot paid pm sub dis tax = (SaleFailed e, st)"
  using assms by (simp add: complete_sale_def)

lemma insert_items_rows:
  "insert_items sid cart db = Inr db' \<Longrightarrow>
   \<exists>rows. sale_items db' = sale_items db @ rows \<and>
          map si_sale_id rows = map (\<lambda>item. sid) cart \<and>
          map si_product_id rows = map item_id cart \<and>
          map si_quantity rows = map item_qty cart \<and>
          map si_unit_price rows = map item_price cart \<and>
          map si_total_price rows = map line_total cart"
proof (induction cart arbitrary: db)
  case Nil
  then show ?case by simp
next
  case (Cons item rest)
  from Cons.prems obtain p where p: "products db (item_id item) = Some p"
    by (auto split: option.splits)
  let ?row = "\<lparr>si_id = sale_items_seq db + 1, si_sale_id = sid,
                si_product_id = item_id item, si_quantity = item_qty item,
                si_unit_price = item_price item, si_total_price = line_total item\<rparr>"
  let ?db1 = "db\<lparr>sale_items := sale_items db @ [?row],
                sale_items_seq := sale_items_seq db + 1,
                products := (products db)(item_id item \<mapsto> p\<lparr>p_stock := p_stock p - item_qty item\<rparr>)\<rparr>"
  have "insert_items sid rest ?db1 = Inr db'" using Cons.prems p by simp
  from Cons.IH [OF this] obtain rows where
    r: "sale_items db' = sale_items ?db1 @ rows"
       "map si_sale_id rows = map (\<lambda>item. sid) rest"
       "map si_product_id rows = map item_id rest"
       "map si_quantity rows = map item_qty rest"
       "map si_unit_price rows = map item_price rest"
       "map si_total_price rows = map line_total rest"
    by blast
  show ?case
    by (rule exI [of _ "?row # rows"]) (use r in simp)
qed

lemma insert_items_sales:
  "insert_items sid cart db = Inr db' \<Longrightarrow> sales db' = sales db \<and> sales_seq db' = sales_seq db"
proof (induction cart arbitrary: db)
  case Nil
  then show ?case by simp
next
  case (Cons item rest)
  from Cons.prems obtain p where p: "products db (item_id item) = Some p"
    by (auto split: option.splits)
  show ?case using Cons.IH Cons.prems p by fastforce
qed

lemma insert_items_products:
  "insert_items sid cart db = Inr db' \<Longrightarrow>
   products db' pid =
     map_option (\<lambda>p. p\<lparr>p_stock := p_stock p - sum_list (map item_qty (filter (\<lambda>i. item_id i = pid) cart))\<rparr>)
       (products db pid)"
proof (induction cart arbitrary: db)
  case Nil
  then show ?case by (simp add: option.map_ident)
next
  case (Cons item rest)
  from Cons.prems obtain p where p: "products db (item_id item) = Some p"
    by (auto split: option.splits)
  let ?db1 = "db\<lparr>sale_items := sale_items db @
                  [\<lparr>si_id = sale_items_seq db + 1, si_sale_id = sid,
                    si_product_id = item_id item, si_quantity = item_qty item,
                    si_unit_price = item_price item, si_total_price = line_total item\<rparr>],
                sale_items_seq := sale_items_seq db + 1,
                products := (products db)(item_id item \<mapsto> p\<lparr>p_stock := p_stock p - item_qty item\<rparr>)\<rparr>"
  have step: "insert_items sid rest ?db1 = Inr db'" using Cons.prems p by simp
  show ?case
    unfolding Cons.IH [OF step]
    using p by (cases "products db pid") (auto simp add: algebra_simps)
qed

lemma insert_items_total:
  "\<forall>item\<in>set cart. products db (item_id item) \<noteq> None \<Longrightarrow> \<exists>db'. insert_items sid cart db = Inr db'"
proof (induction cart arbitrary: db)
  case Nil
  then show ?case by simp
next
  case (Cons item rest)
  from Cons.prems obtain p where p: "products db (item_id item) = Some p" by auto
  let ?db1 = "db\<lparr>sale_items := sale_items db @
                  [\<lparr>si_id = sale_items_seq db + 1, si_sale_id = sid,
                    si_product_id = item_id item, si_quantity = item_qty item,
                    si_unit_price = item_price item, si_total_price = line_total item\<rparr>],
                sale_items_seq := sale_items_seq db + 1,
                products := (products db)(item_id item \<mapsto> p\<lparr>p_stock := p_stock p - item_qty item\<rparr>)\<rparr>"
  have "\<forall>i\<in>set rest. products ?db1 (item_id i) \<noteq> None" using Cons.prems by auto
  from Cons.IH [OF this] obtain db' where "insert_items sid rest ?db1 = Inr db'" by blast
  then show ?case using p by simp
qed

lemma check_stock_None:
  "check_stock db cart = None \<longleftrightarrow>
   (\<forall>item\<in>set cart. \<exists>p. products db (item_id item) = Some p \<and> item_qty item \<le> p_stock p)"
  by (induction cart) (auto split: option.splits)

lemma save_sale_unfold:
  "save_sale db ts rp cart sub dis tax tot paid pm cn cid =
     (case check_stock db cart of
        Some e \<Rightarrow> (Inl e, db)
      | None \<Rightarrow>
          if make_receipt_number ts rp \<in> set (map s_receipt_number (sales db))
          then (Inl (DatabaseError ''UNIQUE constraint failed: sales.receipt_number''), db)
          else (case insert_items (sales_seq db + 1) cart
                       (db\<lparr>sales := sales db @
                              [sale_record (sales_seq db + 1) (make_receipt_number ts rp) cid
                                 sub dis tax tot paid pm cn],
                            sales_seq := sales_seq db + 1\<rparr>) of
                  Inl e \<Rightarrow> (Inl (DatabaseError e), db)
                | Inr db2 \<Rightarrow> (Inr (sales_seq db + 1, make_receipt_number ts rp), db2)))"
  by (simp add: save_sale_def Let_def conn_rollback conn_working conn_commit insert_sale_def
        sale_record_def split: option.splits sum.splits)

lemma save_sale_success:
  assumes "save_sale db ts rp cart sub dis tax tot paid pm cn cid = (Inr (sale_id, rn), db')"
  shows "check_stock db cart = None"
    and "rn = make_receipt_number ts rp"
    and "rn \<notin> set (map s_receipt_number (sales db))"
    and "sale_id = sales_seq db + 1"
    and "insert_items sale_id cart
           (db\<lparr>sales := sales db @ [sale_record sale_id rn cid sub dis tax tot paid pm cn],
               sales_seq := sale_id\<rparr>) = Inr db'"
  using assms unfolding save_sale_unfold
  by (auto split: option.splits if_splits sum.splits)

lemma save_sale_succeeds:
  assumes "check_stock db cart = None"
    and "make_receipt_number ts rp \<notin> set (map s_receipt_number (sales db))"
  shows "\<exists>db'. save_sale db ts rp cart sub dis tax tot paid pm cn cid =
           (Inr (sales_seq db + 1, make_receipt_number ts rp), db')"
proof -
  let ?db1 = "db\<lparr>sales := sales db @
                    [sale_record (sales_seq db + 1) (make_receipt_number ts rp) cid
                       sub dis tax tot paid pm cn],
                  sales_seq := sales_seq db + 1\<rparr>"
  have "\<forall>item\<in>set cart. products ?db1 (item_id item) \<noteq> None"
    using assms(1) by (auto simp add: check_stock_None)
  from insert_items_total [OF this] obtain db' where
    "insert_items (sales_seq db + 1) cart ?db1 = Inr db'" by blast
  then show ?thesis using assms unfolding save_sale_unfold by simp
qed

lemma save_sale_sales:
  assumes "save_sale db ts rp cart sub dis tax tot paid pm cn cid = (Inr (sale_id, rn), db')"
  shows "sales db' = sales db @ [sale_record sale_id rn cid sub dis tax tot paid pm cn]"
  using insert_items_sales [OF save_sale_success(5) [OF assms]] by simp

lemma sum_list_delta:
  "distinct ps \<Longrightarrow> sum_list (map (\<lambda>p. if a = p then (v::int) else 0) ps) = (if a \<in> set ps then v else 0)"
  by (induction ps) auto

lemma sum_list_grouped:
  fixes f :: "'a \<Rightarrow> int"
  assumes "distinct ps" "g ` set xs \<subseteq> set ps"
  shows "sum_list (map (\<lambda>p. sum_list (map f (filter (\<lambda>i. g i = p) xs))) ps) = sum_list (map f xs)"
  using assms(2)
proof (induction xs)
  case Nil
  then show ?case by simp
next
  case (Cons x xs)
  have in_ps: "g x \<in> set ps" using Cons.prems by simp
  have "sum_list (map (\<lambda>p. sum_list (map f (filter (\<lambda>i. g i = p) (x # xs)))) ps) =
        sum_list (map (\<lambda>p. (if g x = p then f x else 0) + sum_list (map f (filter (\<lambda>i. g i = p) xs))) ps)"
    by (rule arg_cong [where f = sum_list], rule map_cong) auto
  also have "\<dots> = sum_list (map (\<lambda>p. if g x = p then f x else 0) ps) +
                   sum_list (map (\<lambda>p. sum_list (map f (filter (\<lambda>i. g i = p) xs))) ps)"
    by (simp add: sum_list_addf)
  also have "\<dots> = f x + sum_list (map f xs)"
    using Cons.IH Cons.prems in_ps by (simp add: sum_list_delta [OF assms(1)])
  finally show ?case by simp
qed

lemma insert_items_exist:
  "insert_items sid cart db = Inr db' \<Longrightarrow> item \<in> set cart \<Longrightarrow> products db (item_id item) \<noteq> None"
proof (induction cart arbitrary: db)
  case Nil
  then show ?case by simp
next
  case (Cons x rest)
  from Cons.prems(1) obtain p where p: "products db (item_id x) = Some p"
    by (auto split: option.splits)
  let ?db1 = "db\<lparr>sale_items := sale_items db @
                  [\<lparr>si_id = sale_items_seq db + 1, si_sale_id = sid,
                    si_product_id = item_id x, si_quantity = item_qty x,
                    si_unit_price = item_price x, si_total_price = line_total x\<rparr>],
                sale_items_seq := sale_items_seq db + 1,
                products := (products db)(item_id x \<mapsto> p\<lparr>p_stock := p_stock p - item_qty x\<rparr>)\<rparr>"
  have step: "insert_items sid rest ?db1 = Inr db'" using Cons.prems(1) p by simp
  show ?case
  proof (cases "item = x")
    case True
    then show ?thesis using p by simp
  next
    case False
    then have "item \<in> set rest" using Cons.prems(2) by simp
    from Cons.IH [OF step this] show ?thesis using p by (auto split: if_splits)
  qed
qed

lemma stock_of_after:
  assumes "insert_items sid cart db = Inr db'"
  shows "stock_of db' pid = stock_of db pid - sum_list (map item_qty (filter (\<lambda>i. item_id i = pid) cart))"
proof (cases "products db pid")
  case None
  have "filter (\<lambda>i. item_id i = pid) cart = []"
    using insert_items_exist [OF assms] None by (fastforce simp add: filter_empty_conv)
  then show ?thesis
    using None by (simp add: stock_of_def insert_items_products [OF assms])
next
  case (Some p)
  then show ?thesis by (simp add: stock_of_def insert_items_products [OF assms])
qed

lemma rows_totals:
  assumes "map si_total_price rows = map line_total cart"
    and "map si_unit_price rows = map item_price cart"
    and "map si_quantity rows = map item_qty cart"
  shows "\<forall>row\<in>set rows. si_total_price row = fmul (si_unit_price row) (float_of_int (si_quantity row))"
proof
  fix row
  assume "row \<in> set rows"
  then obtain k where k: "k < length rows" "rows ! k = row" by (auto simp add: in_set_conv_nth)
  have len: "length rows = length cart" using assms(1) by (rule map_eq_imp_length_eq)
  have "si_total_price row = map si_total_price rows ! k" using k by simp
  also have "\<dots> = line_total (cart ! k)" using k len by (simp add: assms(1))
  finally have t: "si_total_price row = line_total (cart ! k)" .
  have "si_unit_price row = map si_unit_price rows ! k" using k by simp
  also have "\<dots> = item_price (cart ! k)" using k len by (simp add: assms(2))
  finally have u: "si_unit_price row = item_price (cart ! k)" .
  have "si_quantity row = map si_quantity rows ! k" using k by simp
  also have "\<dots> = item_qty (cart ! k)" using k len by (simp add: assms(3))
  finally have q: "si_quantity row = item_qty (cart ! k)" .
  show "si_total_price row = fmul (si_unit_price row) (float_of_int (si_quantity row))"
    by (simp add: t u q line_total_def)
qed

lemma distinct_line_qty:
  assumes "distinct (map item_id cart)" "item \<in> set cart"
  shows "sum_list (map item_qty (filter (\<lambda>i. item_id i = item_id item) cart)) = item_qty item"
proof -
  have "filter (\<lambda>i. item_id i = item_id item) cart = [item]"
    using assms
  proof (induction cart)
    case Nil
    then show ?case by simp
  next
    case (Cons x xs)
    show ?case
    proof (cases "x = item")
      case True
      have "item_id item \<notin> item_id ` set xs" using Cons.prems(1) True by simp
      then have "\<forall>i\<in>set xs. item_id i \<noteq> item_id item" by (metis imageI)
      then have "filter (\<lambda>i. item_id i = item_id item) xs = []"
        by (simp add: filter_empty_conv)
      then show ?thesis using True by simp
    next
      case False
      then have "item \<in> set xs" using Cons.prems(2) by simp
      moreover have "item_id x \<noteq> item_id item" using Cons.prems(1) \<open>item \<in> set xs\<close> by auto
      ultimately show ?thesis using Cons.IH Cons.prems(1) by simp
    qed
  qed
  then show ?thesis by simp
qed

lemma save_sale_failed_unchanged:
  assumes "save_sale db ts rp cart sub dis tax tot paid pm cn cid = (Inl e, db')"
  shows "db' = db"
  using assms unfolding save_sale_unfold
  by (auto split: option.splits if_splits sum.splits)

section \<open>Properties of the checkout\<close>

lemma payment_dialog_paid:
  "payment_dialog total_amount events = Some (paid, pay_method) \<Longrightarrow> total_amount \<le> paid"
  by (induction total_amount events rule: payment_dialog.induct) (auto split: if_splits)

lemma payment_dialog_refuses:
  "\<forall>e\<in>set events. \<forall>paid pay_method. e = ProcessPayment (Some paid) pay_method \<longrightarrow> paid < total_amount \<Longrightarrow>
   payment_dialog total_amount events = None"
  by (induction total_amount events rule: payment_dialog.induct) auto

lemma update_totals_fields:
  "app_cart (update_totals pf st) = app_cart st"
  "app_db (update_totals pf st) = app_db st"
  "cashier (update_totals pf st) = cashier st"
  "selected_customer (update_totals pf st) = selected_customer st"
  "subtotal_var (update_totals pf st) =
     format_2f (t_subtotal (compute_totals pf (app_cart st) (discount_var st) (tax_percent st)))"
  "discount_amount_var (update_totals pf st) =
     format_2f (t_discount (compute_totals pf (app_cart st) (discount_var st) (tax_percent st)))"
  "tax_var (update_totals pf st) =
     format_2f (t_tax (compute_totals pf (app_cart st) (discount_var st) (tax_percent st)))"
  "total_var (update_totals pf st) =
     format_2f (t_total (compute_totals pf (app_cart st) (discount_var st) (tax_percent st)))"
  by (simp_all add: update_totals_def Let_def)

lemma new_sale_fields:
  "app_db (new_sale pf st) = app_db st"
  "app_cart (new_sale pf st) = []"
  by (simp_all add: new_sale_def update_totals_fields)

lemma checkout_completed:
  assumes "checkout pf st events ts rp = (SaleCompleted sid rn, st')"
  obtains paid pay_method db' where
    "payment_dialog (float_of_text (total_var st)) events = Some (paid, pay_method)"
    "save_sale (app_db st) ts rp (app_cart st) (float_of_text (subtotal_var st))
       (float_of_text (discount_amount_var st)) (float_of_text (tax_var st))
       (float_of_text (total_var st)) paid pay_method (cashier st) (selected_customer st) =
       (Inr (sid, rn), db')"
    "st' = new_sale pf (st\<lparr>app_db := db'\<rparr>)"
proof -
  from assms have ne: "app_cart st \<noteq> []"
    by (auto simp add: checkout_def split: if_splits)
  with assms obtain paid pay_method where
    d: "payment_dialog (float_of_text (total_var st)) events = Some (paid, pay_method)"
    by (auto simp add: checkout_def process_payment_def Let_def split: option.splits)
  with assms ne have c: "complete_sale pf st ts rp (float_of_text (total_var st)) paid pay_method
      (float_of_text (subtotal_var st)) (float_of_text (discount_amount_var st))
      (float_of_text (tax_var st)) = (SaleCompleted sid rn, st')"
    by (simp add: checkout_def process_payment_def Let_def)
  then obtain db' where
    "save_sale (app_db st) ts rp (app_cart st) (float_of_text (subtotal_var st))
       (float_of_text (discount_amount_var st)) (float_of_text (tax_var st))
       (float_of_text (total_var st)) paid pay_method (cashier st) (selected_customer st) =
       (Inr (sid, rn), db')"
    "st' = new_sale pf (st\<lparr>app_db := db'\<rparr>)"
    by (auto simp add: complete_sale_def split: prod.splits sum.splits)
  with d show ?thesis by (rule that)
qed

lemma checkout_sale_row:
  assumes "checkout pf st events ts rp = (SaleCompleted sid rn, st')"
  shows "\<exists>paid pay_method.
           payment_dialog (float_of_text (total_var st)) events = Some (paid, pay_method) \<and>
           sales (app_db st') = sales (app_db st) @
             [sale_record sid rn (selected_customer st) (float_of_text (subtotal_var st))
                (float_of_text (discount_amount_var st)) (float_of_text (tax_var st))
                (float_of_text (total_var st)) paid pay_method (cashier st)]"
proof -
  from assms obtain paid pay_method db' where
    d: "payment_dialog (float_of_text (total_var st)) events = Some (paid, pay_method)" and
    s: "save_sale (app_db st) ts rp (app_cart st) (float_of_text (subtotal_var st))
       (float_of_text (discount_amount_var st)) (float_of_text (tax_var st))
       (float_of_text (total_var st)) paid pay_method (cashier st) (selected_customer st) =
       (Inr (sid, rn), db')" and
    n: "st' = new_sale pf (st\<lparr>app_db := db'\<rparr>)"
    by (rule checkout_completed)
  have "sales (app_db st') = sales db'" by (simp add: n new_sale_fields)
  with save_sale_sales [OF s] d show ?thesis by simp
qed

lemma checkout_no_payment:
  assumes "payment_dialog (float_of_text (total_var st)) events = None"
  shows "checkout pf st events ts rp = (if app_cart st = [] then CartEmpty else NoPayment, st)"
  using assms by (simp add: checkout_def process_payment_def Let_def)

section \<open>Evaluation at the concrete inputs\<close>

lemma receipt_demo: "make_receipt_number 1700000000 1234 = ''R17000000001234''"
  by (simp add: make_receipt_number_def str_nat.simps digit_char_def)

lemma receipt_demo_next: "make_receipt_number 1700000000 1235 = ''R17000000001235''"
  by (simp add: make_receipt_number_def str_nat.simps digit_char_def)

lemma shop_products:
  "products shop_db 1 = Some \<lparr>p_name = ''Cola'', p_price = 3 / 2, p_stock = 3\<rparr>"
  "products shop_db 2 = Some \<lparr>p_name = ''Chips'', p_price = 2, p_stock = 10\<rparr>"
  "products shop_db 3 = Some \<lparr>p_name = ''Gum'', p_price = 1, p_stock = 5\<rparr>"
  "products shop_db 9 = None"
  by (simp_all add: shop_db_def)

lemma line_fields:
  "item_id (line pid name price qty) = pid"
  "item_name (line pid name price qty) = name"
  "item_price (line pid name price qty) = price"
  "item_qty (line pid name price qty) = qty"
  by (simp_all add: line_def)

text \<open>
  The values of \<open>fl\<close> that the concrete calculations below pass through, each checked
  against the bounds of its binary exponent.
\<close>

lemma fl_val_1: "fl (46522979852472057488541374849315 / 1298074214633706907132624082305024) = 5165088340638675 / 144115188075855872"
  by (subst fl_eval [where e = "- 5"]) (simp_all add: round_half_even_def Let_def floor_rat_numeral)

lemma fl_val_2: "fl (1 / 25) = 5764607523034235 / 144115188075855872"
  by (subst fl_eval [where e = "- 5"]) (simp_all add: round_half_even_def Let_def floor_rat_numeral)

lemma fl_val_3: "fl (1 / 20) = 3602879701896397 / 72057594037927936"
  by (subst fl_eval [where e = "- 5"]) (simp_all add: round_half_even_def Let_def floor_rat_numeral)

lemma fl_val_4: "fl (630503947831869 / 9007199254740992) = 630503947831869 / 9007199254740992"
  by (subst fl_eval [where e = "- 4"]) (simp_all add: round_half_even_def Let_def floor_rat_numeral)

lemma fl_val_5: "fl (7 / 100) = 1261007895663739 / 18014398509481984"
  by (subst fl_eval [where e = "- 4"]) (simp_all add: round_half_even_def Let_def floor_rat_numeral)

lemma fl_val_6: "fl (1 / 10) = 3602879701896397 / 36028797018963968"
  by (subst fl_eval [where e = "- 4"]) (simp_all add: round_half_even_def Let_def floor_rat_numeral)

lemma fl_val_7: "fl (1170935903116329 / 11258999068426240) = 3746994889972253 / 36028797018963968"
  by (subst fl_eval [where e = "- 4"]) (simp_all add: round_half_even_def Let_def floor_rat_numeral)

lemma fl_val_8: "fl (3746994889972253 / 36028797018963968) = 3746994889972253 / 36028797018963968"
  by (subst fl_eval [where e = "- 4"]) (simp_all add: round_half_even_def Let_def floor_rat_numeral)

lemma fl_val_9: "fl (32425917317067573 / 144115188075855872) = 8106479329266893 / 36028797018963968"
  by (subst fl_eval [where e = "- 3"]) (simp_all add: round_half_even_def Let_def floor_rat_numeral)

lemma fl_val_10: "fl (23 / 100) = 8286623314361713 / 36028797018963968"
  by (subst fl_eval [where e = "- 3"]) (simp_all add: round_half_even_def Let_def floor_rat_numeral)

lemma fl_val_11: "fl (1 / 4) = 1 / 4"
  by (subst fl_eval [where e = "- 2"]) (simp_all add: round_half_even_def Let_def floor_rat_numeral)

lemma fl_val_12: "fl (18014398509481985 / 72057594037927936) = 1 / 4"
  by (subst fl_eval [where e = "- 2"]) (simp_all add: round_half_even_def Let_def floor_rat_numeral)

lemma fl_val_13: "fl (315251973915935 / 1125899906842624) = 315251973915935 / 1125899906842624"
  by (subst fl_eval [where e = "- 2"]) (simp_all add: round_half_even_def Let_def floor_rat_numeral)

lemma fl_val_14: "fl (1 / 2) = 1 / 2"
  by (subst fl_eval [where e = "- 1"]) (simp_all add: round_half_even_def Let_def floor_rat_numeral)

lemma fl_val_15: "fl (18014398509481985 / 36028797018963968) = 1 / 2"
  by (subst fl_eval [where e = "- 1"]) (simp_all add: round_half_even_def Let_def floor_rat_numeral)

lemma fl_val_16: "fl (32281802128991715 / 36028797018963968) = 8070450532247929 / 9007199254740992"
  by (subst fl_eval [where e = "- 1"]) (simp_all add: round_half_even_def Let_def floor_rat_numeral)

lemma fl_val_17: "fl (32425917317067571 / 36028797018963968) = 8106479329266893 / 9007199254740992"
  by (subst fl_eval [where e = "- 1"]) (simp_all add: round_half_even_def Let_def floor_rat_numeral)

lemma fl_val_18: "fl (93 / 100) = 8376695306909123 / 9007199254740992"
  by (subst fl_eval [where e = "- 1"]) (simp_all add: round_half_even_def Let_def floor_rat_numeral)

lemma fl_val_19: "fl (134292296856605539 / 144115188075855872) = 4196634276768923 / 4503599627370496"
  by (subst fl_eval [where e = "- 1"]) (simp_all add: round_half_even_def Let_def floor_rat_numeral)

lemma fl_val_20: "fl (47 / 50) = 2116691824864133 / 2251799813685248"
  by (subst fl_eval [where e = "- 1"]) (simp_all add: round_half_even_def Let_def floor_rat_numeral)

lemma fl_val_21: "fl (135468276791304523 / 144115188075855872) = 8466767299456533 / 9007199254740992"
  by (subst fl_eval [where e = "- 1"]) (simp_all add: round_half_even_def Let_def floor_rat_numeral)

lemma fl_val_22: "fl (1) = 1"
  by (subst fl_eval [where e = "0"]) (simp_all add: round_half_even_def Let_def floor_rat_numeral)

lemma fl_val_23: "fl (2) = 2"
  by (subst fl_eval [where e = "1"]) (simp_all add: round_half_even_def Let_def floor_rat_numeral)

lemma fl_val_24: "fl (3) = 3"
  by (subst fl_eval [where e = "1"]) (simp_all add: round_half_even_def Let_def floor_rat_numeral)

lemma fl_val_25: "fl (9 / 2) = 9 / 2"
  by (subst fl_eval [where e = "2"]) (simp_all add: round_half_even_def Let_def floor_rat_numeral)

lemma fl_val_26: "fl (118 / 25) = 5314247560297185 / 1125899906842624"
  by (subst fl_eval [where e = "2"]) (simp_all add: round_half_even_def Let_def floor_rat_numeral)

lemma fl_val_27: "fl (170236065914604749 / 36028797018963968) = 2659938529915699 / 562949953421312"
  by (subst fl_eval [where e = "2"]) (simp_all add: round_half_even_def Let_def floor_rat_numeral)

lemma fl_val_28: "fl (5) = 5"
  by (subst fl_eval [where e = "2"]) (simp_all add: round_half_even_def Let_def floor_rat_numeral)

lemma fl_val_29: "fl (21 / 4) = 21 / 4"
  by (subst fl_eval [where e = "2"]) (simp_all add: round_half_even_def Let_def floor_rat_numeral)

lemma fl_val_30: "fl (10) = 10"
  by (subst fl_eval [where e = "3"]) (simp_all add: round_half_even_def Let_def floor_rat_numeral)

lemma fl_val_31: "fl (52 / 5) = 5854679515581645 / 562949953421312"
  by (subst fl_eval [where e = "3"]) (simp_all add: round_half_even_def Let_def floor_rat_numeral)

lemmas fl_vals = fl_val_1 fl_val_2 fl_val_3 fl_val_4 fl_val_5 fl_val_6 fl_val_7 fl_val_8 fl_val_9 fl_val_10 fl_val_11 fl_val_12 fl_val_13 fl_val_14 fl_val_15 fl_val_16 fl_val_17 fl_val_18 fl_val_19 fl_val_20 fl_val_21 fl_val_22 fl_val_23 fl_val_24 fl_val_25 fl_val_26 fl_val_27 fl_val_28 fl_val_29 fl_val_30 fl_val_31

lemma percent_discount_bounded:
  assumes "py_float ptext = Some percentage" "0 \<le> percentage" "percentage \<le> 100"
    and "0 \<le> subtotal" "fl subtotal = subtotal"
  shows "parse_discount py_float (ptext @ ''%'') subtotal = fmul subtotal (fdiv percentage 100)"
    and "0 \<le> parse_discount py_float (ptext @ ''%'') subtotal"
    and "parse_discount py_float (ptext @ ''%'') subtotal \<le> subtotal"
proof -
  show eq: "parse_discount py_float (ptext @ ''%'') subtotal = fmul subtotal (fdiv percentage 100)"
    using assms(1-3) by (simp add: parse_discount_def)
  have q0: "0 \<le> fdiv percentage 100"
    unfolding fdiv_def by (rule fl_nonneg) (use assms(2) in simp)
  have "fl (percentage / 100) \<le> fl 1"
    by (rule fl_mono) (use assms(3) in simp)
  then have q1: "fdiv percentage 100 \<le> 1" by (simp add: fdiv_def fl_vals)
  show "0 \<le> parse_discount py_float (ptext @ ''%'') subtotal"
    unfolding eq fmul_def by (rule fl_nonneg) (use q0 assms(4) in simp)
  have "subtotal * fdiv percentage 100 \<le> subtotal * 1"
    by (rule mult_left_mono) (use q1 assms(4) in simp_all)
  then have "fl (subtotal * fdiv percentage 100) \<le> fl subtotal"
    using fl_mono by simp
  then show "parse_discount py_float (ptext @ ''%'') subtotal \<le> subtotal"
    unfolding eq fmul_def by (simp add: assms(5))
qed

lemma py_sum_snoc: "py_sum (xs @ [x]) = fadd (py_sum xs) x"
  by (simp add: py_sum_def)

lemma py_sum_float: "fl (py_sum xs) = py_sum xs"
  by (induction xs rule: rev_induct) (simp_all add: py_sum_snoc fadd_def fl_idem, simp add: py_sum_def fl_zero)

lemma py_sum_nonneg: "\<forall>x\<in>set xs. 0 \<le> x \<Longrightarrow> 0 \<le> py_sum xs"
proof (induction xs rule: rev_induct)
  case Nil
  then show ?case by (simp add: py_sum_def)
next
  case (snoc x xs)
  then have "0 \<le> py_sum xs + x" by simp
  then show ?case unfolding py_sum_snoc fadd_def by (rule fl_nonneg)
qed

lemma line_total_nonneg:
  assumes "0 \<le> item_price item" "0 \<le> item_qty item"
  shows "0 \<le> line_total item"
proof -
  have "0 \<le> float_of_int (item_qty item)"
    unfolding float_of_int_def by (rule fl_nonneg) (use assms(2) in simp)
  then have "0 \<le> item_price item * float_of_int (item_qty item)" using assms(1) by simp
  then show ?thesis unfolding line_total_def fmul_def by (rule fl_nonneg)
qed

lemma cart_subtotal_float: "fl (cart_subtotal cart) = cart_subtotal cart"
  by (simp add: cart_subtotal_def py_sum_float)

lemma cart_subtotal_nonneg:
  assumes "\<forall>item\<in>set cart. 0 \<le> item_price item \<and> 0 \<le> item_qty item"
  shows "0 \<le> cart_subtotal cart"
  unfolding cart_subtotal_def
  by (rule py_sum_nonneg) (use assms in \<open>auto simp add: line_total_nonneg\<close>)

lemma percent_discount_of_cart:
  assumes "\<forall>item\<in>set cart. 0 \<le> item_price item \<and> 0 \<le> item_qty item"
    and "py_float ptext = Some percentage" "0 \<le> percentage" "percentage \<le> 100"
    and "0 \<le> tax_rate"
  shows "t_discount (compute_totals py_float cart (ptext @ ''%'') tax_rate) \<le>
           t_subtotal (compute_totals py_float cart (ptext @ ''%'') tax_rate)"
    and "0 \<le> t_total (compute_totals py_float cart (ptext @ ''%'') tax_rate)"
proof -
  let ?s = "cart_subtotal cart"
  let ?d = "parse_discount py_float (ptext @ ''%'') ?s"
  have s0: "0 \<le> ?s" using assms(1) by (rule cart_subtotal_nonneg)
  have d: "?d \<le> ?s"
    using percent_discount_bounded(3) [of py_float ptext percentage "cart_subtotal cart"]
      assms(2-4) s0 cart_subtotal_float by simp
  then show "t_discount (compute_totals py_float cart (ptext @ ''%'') tax_rate) \<le>
           t_subtotal (compute_totals py_float cart (ptext @ ''%'') tax_rate)"
    by (simp add: compute_totals_def Let_def)
  have n: "0 \<le> fsub ?s ?d" using d by (rule fsub_nonneg)
  have r: "0 \<le> fdiv tax_rate 100"
    unfolding fdiv_def by (rule fl_nonneg) (use assms(5) in simp)
  have t: "0 \<le> fmul (fsub ?s ?d) (fdiv tax_rate 100)"
    unfolding fmul_def by (rule fl_nonneg) (use n r in simp)
  have "0 \<le> fadd (fsub ?s ?d) (fmul (fsub ?s ?d) (fdiv tax_rate 100))"
    unfolding fadd_def by (rule fl_nonneg) (use n t in simp)
  then show "0 \<le> t_total (compute_totals py_float cart (ptext @ ''%'') tax_rate)"
    by (simp add: compute_totals_def Let_def)
qed

lemma decimal_10: "float_of_decimal ''10'' = Some 10"
  by (simp add: float_of_decimal_def digit_of_def fl_vals)

lemma decimal_10_4: "float_of_decimal ''10.4'' = Some (5854679515581645 / 562949953421312)"
  by (simp add: float_of_decimal_def digit_of_def fl_vals)

lemma line_total_cola: "line_total (line 1 ''Cola'' (3 / 2) 2) = 3"
  by (simp add: line_total_def line_fields fmul_def float_of_int_def fl_vals)

lemma line_total_chips: "line_total (line 2 ''Chips'' 2 1) = 2"
  by (simp add: line_total_def line_fields fmul_def float_of_int_def fl_vals)

lemma subtotal_a: "cart_subtotal cart_a = 5"
  by (simp add: cart_subtotal_def cart_a_def py_sum_def line_total_cola line_total_chips fadd_def fl_vals)

lemma totals_a:
  "compute_totals float_of_decimal cart_a ''10%'' 5 =
     \<lparr>t_subtotal = 5, t_discount = 1 / 2,
      t_tax = 8106479329266893 / 36028797018963968,
      t_total = 2659938529915699 / 562949953421312\<rparr>"
  by (simp add: compute_totals_def Let_def subtotal_a parse_discount_def decimal_10
        fmul_def fdiv_def fsub_def fadd_def fl_vals)

lemma format_vals:
  "format_2f 5 = 5"
  "format_2f (1 / 2) = 1 / 2"
  "format_2f (8106479329266893 / 36028797018963968) = 23 / 100"
  "format_2f (2659938529915699 / 562949953421312) = 118 / 25"
  "format_2f 10 = 10"
  "format_2f (- (1 / 4)) = - (1 / 4)"
  "format_2f (- (21 / 4)) = - (21 / 4)"
  "format_2f 1 = 1"
  "format_2f (3746994889972253 / 36028797018963968) = 1 / 10"
  "format_2f (5165088340638675 / 144115188075855872) = 1 / 25"
  "format_2f (4196634276768923 / 4503599627370496) = 93 / 100"
  "format_2f (8466767299456533 / 9007199254740992) = 47 / 50"
  "format_2f (630503947831869 / 9007199254740992) = 7 / 100"
  by (simp_all add: format_2f_def round_half_even_def Let_def floor_rat_numeral)

lemma totals_flat:
  "compute_totals float_of_decimal cart_a ''10'' 5 =
     \<lparr>t_subtotal = 5, t_discount = 10, t_tax = - (1 / 4), t_total = - (21 / 4)\<rparr>"
  by (simp add: compute_totals_def Let_def subtotal_a parse_discount_def decimal_10
        fmul_def fdiv_def fsub_def fadd_def fl_vals fl_minus)

lemma subtotal_gum: "cart_subtotal [line 3 ''Gum'' 1 1] = 1"
  by (simp add: cart_subtotal_def py_sum_def line_total_def line_fields fmul_def fadd_def
        float_of_int_def fl_vals)

lemma totals_gum:
  "compute_totals float_of_decimal [line 3 ''Gum'' 1 1] ''10.4%'' 4 =
     \<lparr>t_subtotal = 1, t_discount = 3746994889972253 / 36028797018963968,
      t_tax = 5165088340638675 / 144115188075855872,
      t_total = 4196634276768923 / 4503599627370496\<rparr>"
  by (simp add: compute_totals_def Let_def subtotal_gum parse_discount_def decimal_10_4
        fmul_def fdiv_def fsub_def fadd_def fl_vals)

lemma shown_a:
  "update_totals float_of_decimal app_a =
     app_a\<lparr>subtotal_var := 5, discount_amount_var := 1 / 2, tax_var := 23 / 100,
           total_var := 118 / 25\<rparr>"
  by (simp add: update_totals_def Let_def app_a_def totals_a format_vals)

lemma shown_flat:
  "update_totals float_of_decimal app_flat =
     app_flat\<lparr>subtotal_var := 5, discount_amount_var := 10, tax_var := - (1 / 4),
              total_var := - (21 / 4)\<rparr>"
  by (simp add: update_totals_def Let_def app_flat_def app_a_def totals_flat format_vals)

lemma shown_gum:
  "update_totals float_of_decimal app_gum =
     app_gum\<lparr>subtotal_var := 1, discount_amount_var := 1 / 10, tax_var := 1 / 25,
             total_var := 93 / 100\<rparr>"
  by (simp add: update_totals_def Let_def app_gum_def app_a_def totals_gum format_vals)

lemma check_stock_a: "check_stock shop_db cart_a = None"
  by (simp add: cart_a_def shop_products line_fields)

lemma checkout_a_paid:
  "fst (checkout float_of_decimal (update_totals float_of_decimal app_a)
          [ProcessPayment (Some 4) ''Cash'', ProcessPayment (Some 5) ''Cash''] 1700000000 1234) =
     SaleCompleted 1 ''R17000000001234''"
  unfolding shown_a
  by (simp add: checkout_def process_payment_def Let_def app_a_def cart_a_def
        float_of_text_def fl_vals complete_sale_def save_sale_unfold shop_products line_fields
        receipt_demo shop_db_def split: prod.splits)

lemma checkout_gum_paid:
  "fst (checkout float_of_decimal (update_totals float_of_decimal app_gum)
          [ProcessPayment (Some 1) ''Cash''] 1700000000 1234) =
     SaleCompleted 1 ''R17000000001234''"
  unfolding shown_gum
  by (simp add: checkout_def process_payment_def Let_def app_gum_def app_a_def
        float_of_text_def fl_vals complete_sale_def save_sale_unfold shop_products line_fields
        receipt_demo shop_db_def split: prod.splits)

lemma checkout_gum_sales:
  "sales (app_db (snd (checkout float_of_decimal (update_totals float_of_decimal app_gum)
          [ProcessPayment (Some 1) ''Cash''] 1700000000 1234))) =
     [sale_record 1 ''R17000000001234'' None 1 (3602879701896397 / 36028797018963968)
        (5764607523034235 / 144115188075855872) (8376695306909123 / 9007199254740992) 1
        ''Cash'' ''Ann'']"
  unfolding shown_gum
  by (simp add: checkout_def process_payment_def Let_def app_gum_def app_a_def
        float_of_text_def fl_vals complete_sale_def save_sale_unfold shop_products line_fields
        receipt_demo shop_db_def new_sale_fields split: prod.splits)

lemma checkout_flat_sales:
  "sales (app_db (snd (checkout float_of_decimal (update_totals float_of_decimal app_flat)
          [ProcessPayment (Some 0) ''Cash''] 1700000000 1234))) =
     [sale_record 1 ''R17000000001234'' None 5 10 (- (1 / 4)) (- (21 / 4)) 0 ''Cash'' ''Ann'']"
  unfolding shown_flat
  by (simp add: checkout_def process_payment_def Let_def app_flat_def app_a_def
        cart_a_def float_of_text_def fl_vals fl_minus complete_sale_def save_sale_unfold
        shop_products line_fields receipt_demo shop_db_def new_sale_fields split: prod.splits)


section \<open>Empty carts\<close>

text \<open>
  Claim C6 says that a commit with an empty cart fails with an EmptyCartError and persists
  nothing. \<^verbatim>\<open>DataManager.save_sale\<close> has no such check: with an empty cart both loops run
  zero times, the sale row is inserted and committed, and the pair of the new id and the
  receipt number is returned.
\<close>

theorem save_sale_empty_cart_persists:
  "fst (save_sale shop_db 1700000000 1234 [] 0 0 0 0 0 ''Cash'' ''Ann'' None) =
     Inr (1, ''R17000000001234'') \<and>
   sales (snd (save_sale shop_db 1700000000 1234 [] 0 0 0 0 0 ''Cash'' ''Ann'' None)) =
     [sale_record 1 ''R17000000001234'' None 0 0 0 0 0 ''Cash'' ''Ann''] \<and>
   sales shop_db = []"
  by (simp add: save_sale_unfold shop_db_def receipt_demo)

text \<open>
  Claim C6, as the code has it: the empty cart is turned away by \<^verbatim>\<open>ModernPOSApp.checkout\<close>,
  before the payment dialog opens and before \<^verbatim>\<open>save_sale\<close> is called. The checkout ends
  with the notice \<^verbatim>\<open>Cart is empty!\<close> and the whole session, with its database (sales,
  sale items and stock), is as it was.
\<close>

theorem checkout_empty_cart:
  assumes "app_cart st = []"
  shows "checkout py_float st events timestamp random_part = (CartEmpty, st)"
  using assms by (simp add: checkout_def)

theorem checkout_empty_cart_witness:
  "app_cart (app_a\<lparr>app_cart := []\<rparr>) = [] \<and>
   checkout float_of_decimal (app_a\<lparr>app_cart := []\<rparr>) [ProcessPayment (Some 10) ''Cash'']
     1700000000 1234 = (CartEmpty, app_a\<lparr>app_cart := []\<rparr>)"
proof -
  have h: "app_cart (app_a\<lparr>app_cart := []\<rparr>) = []" by simp
  show ?thesis using h checkout_empty_cart [OF h] by simp
qed

section \<open>Rejected carts\<close>

text \<open>
  Claim C1 says that every cart with a line over its product's persisted stock makes the
  commit raise the insufficient-stock error. The first loop of \<^verbatim>\<open>save_sale\<close> stops at the
  first line that fails either of its two checks, so a line whose product does not exist,
  standing before the line that is over stock, decides the error: here the commit raises
  \<^verbatim>\<open>Product Ghost not found\<close> although the Cola line asks for 5 of 3 in stock.
\<close>

theorem save_sale_over_stock_behind_missing:
  "over_stock shop_db (line 1 ''Cola'' (3 / 2) 5) \<and>
   save_sale shop_db 1700000000 1234 [line 9 ''Ghost'' 1 1, line 1 ''Cola'' (3 / 2) 5]
     7 0 0 7 10 ''Cash'' ''Ann'' None = (Inl (ProductNotFound ''Ghost''), shop_db)"
  by (simp add: save_sale_unfold over_stock_def shop_products line_fields)

text \<open>
  Claim C1, as the code has it: for every cart with a line over its product's persisted
  stock, the commit fails with the error of the first offending line in cart order, and
  leaves the database (sales, sale items, every product's stock) and the cart of the
  session as they were. When that first offending line is over stock, which is so
  whenever every line's product exists, the error is the insufficient-stock error with
  the product's name, the available stock and the requested quantity.
\<close>

theorem save_sale_over_stock:
  assumes "\<exists>item\<in>set cart. over_stock db item"
  shows "\<exists>item. find (offending db) cart = Some item \<and>
           save_sale db timestamp random_part cart subtotal discount tax total_amount paid
             payment_method cashier_name customer_id = (Inl (stock_error db item), db) \<and>
           complete_sale py_float (st\<lparr>app_cart := cart, app_db := db\<rparr>) timestamp random_part
             total_amount paid payment_method subtotal discount tax =
             (SaleFailed (stock_error db item), st\<lparr>app_cart := cart, app_db := db\<rparr>) \<and>
           (over_stock db item \<longrightarrow>
              (\<exists>p. products db (item_id item) = Some p \<and> p_stock p < item_qty item \<and>
                   stock_error db item = NotEnoughStock (item_name item) (p_stock p) (item_qty item))) \<and>
           ((\<forall>i\<in>set cart. \<not> missing db i) \<longrightarrow> over_stock db item)"
proof -
  let ?st = "st\<lparr>app_cart := cart, app_db := db\<rparr>"
  have off: "\<exists>item\<in>set cart. offending db item"
    using assms by (auto simp add: offending_def)
  from off obtain item where
    f: "find (offending db) cart = Some item" "item \<in> set cart" "offending db item"
    by (rule find_offending)
  have cs: "check_stock db cart = Some (stock_error db item)"
    using f(1) by (simp add: check_stock_find)
  have s: "save_sale db timestamp random_part cart subtotal discount tax total_amount paid
          payment_method cn cid = (Inl (stock_error db item), db)" for cn cid
    by (rule save_sale_rejected [OF cs])
  have c: "complete_sale py_float ?st timestamp random_part total_amount paid payment_method
             subtotal discount tax = (SaleFailed (stock_error db item), ?st)"
    by (rule complete_sale_failed) (simp add: s)
  have o: "over_stock db item \<longrightarrow>
              (\<exists>p. products db (item_id item) = Some p \<and> p_stock p < item_qty item \<and>
                   stock_error db item = NotEnoughStock (item_name item) (p_stock p) (item_qty item))"
    by (auto simp add: over_stock_def stock_error_def split: option.splits)
  have m: "(\<forall>i\<in>set cart. \<not> missing db i) \<longrightarrow> over_stock db item"
    using f(2,3) by (auto simp add: offending_def)
  show ?thesis using f(1) s c o m by blast
qed

theorem save_sale_over_stock_witness:
  "over_stock shop_db (line 1 ''Cola'' (3 / 2) 5) \<and>
   save_sale shop_db 1700000000 1234 [line 2 ''Chips'' 2 1, line 1 ''Cola'' (3 / 2) 5]
     7 0 0 7 10 ''Cash'' ''Ann'' None = (Inl (NotEnoughStock ''Cola'' 3 5), shop_db) \<and>
   complete_sale float_of_decimal
     (app_a\<lparr>app_cart := [line 2 ''Chips'' 2 1, line 1 ''Cola'' (3 / 2) 5], app_db := shop_db\<rparr>)
     1700000000 1234 7 10 ''Cash'' 7 0 0 =
     (SaleFailed (NotEnoughStock ''Cola'' 3 5),
      app_a\<lparr>app_cart := [line 2 ''Chips'' 2 1, line 1 ''Cola'' (3 / 2) 5], app_db := shop_db\<rparr>)"
proof -
  let ?cart = "[line 2 ''Chips'' 2 1, line 1 ''Cola'' (3 / 2) 5]"
  have o: "over_stock shop_db (line 1 ''Cola'' (3 / 2) 5)"
    by (simp add: over_stock_def shop_products line_fields)
  then have h: "\<exists>item\<in>set ?cart. over_stock shop_db item" by simp
  from save_sale_over_stock [OF h, where timestamp = 1700000000 and random_part = 1234
      and subtotal = 7 and discount = 0 and tax = 0 and total_amount = 7 and paid = 10
      and payment_method = "''Cash''" and cashier_name = "''Ann''" and customer_id = None
      and py_float = float_of_decimal and st = app_a]
  obtain item where
    f: "find (offending shop_db) ?cart = Some item" and
    s: "save_sale shop_db 1700000000 1234 ?cart 7 0 0 7 10 ''Cash'' ''Ann'' None =
          (Inl (stock_error shop_db item), shop_db)" and
    c: "complete_sale float_of_decimal (app_a\<lparr>app_cart := ?cart, app_db := shop_db\<rparr>)
          1700000000 1234 7 10 ''Cash'' 7 0 0 =
          (SaleFailed (stock_error shop_db item), app_a\<lparr>app_cart := ?cart, app_db := shop_db\<rparr>)"
    by blast
  have "find (offending shop_db) ?cart = Some (line 1 ''Cola'' (3 / 2) 5)"
    by (simp add: offending_def missing_def over_stock_def shop_products line_fields)
  with f have i: "item = line 1 ''Cola'' (3 / 2) 5" by simp
  have e: "stock_error shop_db (line 1 ''Cola'' (3 / 2) 5) = NotEnoughStock ''Cola'' 3 5"
    by (simp add: stock_error_def shop_products line_fields)
  show ?thesis using o s c unfolding i e by simp
qed

text \<open>
  Claim C10 says that a line of a product that is not in the products table makes the
  commit raise an error that names this product. Again the first failing line decides:
  with an over-stock line in front, the error is the insufficient-stock error of the
  other product and the missing one is not named.
\<close>

theorem save_sale_missing_behind_over_stock:
  "missing shop_db (line 9 ''Ghost'' 1 1) \<and>
   save_sale shop_db 1700000000 1234 [line 1 ''Cola'' (3 / 2) 5, line 9 ''Ghost'' 1 1]
     7 0 0 7 10 ''Cash'' ''Ann'' None = (Inl (NotEnoughStock ''Cola'' 3 5), shop_db)"
  by (simp add: save_sale_unfold missing_def shop_products line_fields)

text \<open>
  Claim C10, as the code has it: for every cart with a line whose product does not exist,
  the commit fails in its first, read-only loop with the error of the first offending
  line, so nothing is written and the sales, sale items and products are unchanged. When
  that first offending line is a missing product, which is so whenever no line is over
  stock, the error is the not-found error with the name kept in the cart line.
\<close>

theorem save_sale_missing_product:
  assumes "\<exists>item\<in>set cart. missing db item"
  shows "\<exists>item. find (offending db) cart = Some item \<and>
           check_stock db cart = Some (stock_error db item) \<and>
           save_sale db timestamp random_part cart subtotal discount tax total_amount paid
             payment_method cashier_name customer_id = (Inl (stock_error db item), db) \<and>
           (missing db item \<longrightarrow> stock_error db item = ProductNotFound (item_name item)) \<and>
           ((\<forall>i\<in>set cart. \<not> over_stock db i) \<longrightarrow> missing db item)"
proof -
  have off: "\<exists>item\<in>set cart. offending db item"
    using assms by (auto simp add: offending_def)
  from off obtain item where
    f: "find (offending db) cart = Some item" "item \<in> set cart" "offending db item"
    by (rule find_offending)
  have cs: "check_stock db cart = Some (stock_error db item)"
    using f(1) by (simp add: check_stock_find)
  have s: "save_sale db timestamp random_part cart subtotal discount tax total_amount paid
          payment_method cashier_name customer_id = (Inl (stock_error db item), db)"
    by (rule save_sale_rejected [OF cs])
  have m: "missing db item \<longrightarrow> stock_error db item = ProductNotFound (item_name item)"
    by (simp add: missing_def stock_error_def)
  have o: "(\<forall>i\<in>set cart. \<not> over_stock db i) \<longrightarrow> missing db item"
    using f(2,3) by (auto simp add: offending_def)
  show ?thesis using f(1) cs s m o by blast
qed

theorem save_sale_missing_product_witness:
  "missing shop_db (line 9 ''Ghost'' 1 1) \<and>
   save_sale shop_db 1700000000 1234 [line 2 ''Chips'' 2 1, line 9 ''Ghost'' 1 1]
     3 0 0 3 3 ''Cash'' ''Ann'' None = (Inl (ProductNotFound ''Ghost''), shop_db)"
proof -
  let ?cart = "[line 2 ''Chips'' 2 1, line 9 ''Ghost'' 1 1]"
  have g: "missing shop_db (line 9 ''Ghost'' 1 1)"
    by (simp add: missing_def shop_products line_fields)
  then have h: "\<exists>item\<in>set ?cart. missing shop_db item" by simp
  from save_sale_missing_product [OF h, where timestamp = 1700000000 and random_part = 1234
      and subtotal = 3 and discount = 0 and tax = 0 and total_amount = 3 and paid = 3
      and payment_method = "''Cash''" and cashier_name = "''Ann''" and customer_id = None]
  obtain item where
    f: "find (offending shop_db) ?cart = Some item" and
    s: "save_sale shop_db 1700000000 1234 ?cart 3 0 0 3 3 ''Cash'' ''Ann'' None =
          (Inl (stock_error shop_db item), shop_db)"
    by blast
  have "find (offending shop_db) ?cart = Some (line 9 ''Ghost'' 1 1)"
    by (simp add: offending_def missing_def over_stock_def shop_products line_fields)
  with f have i: "item = line 9 ''Ghost'' 1 1" by simp
  have e: "stock_error shop_db (line 9 ''Ghost'' 1 1) = ProductNotFound ''Ghost''"
    by (simp add: stock_error_def shop_products line_fields)
  show ?thesis using g s unfolding i e by simp
qed

section \<open>Successful commits\<close>

text \<open>
  Claim C2: a successful commit appends exactly one sale-item row per cart line, in cart
  order, with the sale's id, the line's product, quantity and unit price, and a total
  price that is the float product of unit price and quantity; every product's stock
  goes down by the quantities of the lines that name it (by the line's quantity when
  the lines name different products); and the stock decrements summed over the
  referenced products equal the quantities summed over the new rows.
\<close>

theorem save_sale_stock_conservation:
  assumes "save_sale db timestamp random_part cart subtotal discount tax total_amount paid
             payment_method cashier_name customer_id = (Inr (sale_id, receipt_number), db')"
  shows "\<exists>rows. sale_items db' = sale_items db @ rows \<and>
           length rows = length cart \<and>
           map si_sale_id rows = map (\<lambda>item. sale_id) cart \<and>
           map si_product_id rows = map item_id cart \<and>
           map si_quantity rows = map item_qty cart \<and>
           map si_unit_price rows = map item_price cart \<and>
           (\<forall>row\<in>set rows.
              si_total_price row = fmul (si_unit_price row) (float_of_int (si_quantity row))) \<and>
           (\<forall>pid. stock_of db' pid =
              stock_of db pid - sum_list (map item_qty (filter (\<lambda>i. item_id i = pid) cart))) \<and>
           (distinct (map item_id cart) \<longrightarrow>
              (\<forall>item\<in>set cart. stock_of db' (item_id item) = stock_of db (item_id item) - item_qty item)) \<and>
           sum_list (map (\<lambda>pid. stock_of db pid - stock_of db' pid) (remdups (map item_id cart))) =
             sum_list (map si_quantity rows)"
proof -
  let ?db1 = "db\<lparr>sales := sales db @
                    [sale_record sale_id receipt_number customer_id subtotal discount tax
                       total_amount paid payment_method cashier_name],
                  sales_seq := sale_id\<rparr>"
  have ins: "insert_items sale_id cart ?db1 = Inr db'"
    by (rule save_sale_success(5) [OF assms])
  from insert_items_rows [OF ins] obtain rows where
    r: "sale_items db' = sale_items ?db1 @ rows"
       "map si_sale_id rows = map (\<lambda>item. sale_id) cart"
       "map si_product_id rows = map item_id cart"
       "map si_quantity rows = map item_qty cart"
       "map si_unit_price rows = map item_price cart"
       "map si_total_price rows = map line_total cart"
    by blast
  have len: "length rows = length cart" using r(4) by (rule map_eq_imp_length_eq)
  have tot: "\<forall>row\<in>set rows.
              si_total_price row = fmul (si_unit_price row) (float_of_int (si_quantity row))"
    by (rule rows_totals [OF r(6) r(5) r(4)])
  have st: "stock_of db' pid =
              stock_of db pid - sum_list (map item_qty (filter (\<lambda>i. item_id i = pid) cart))" for pid
    using stock_of_after [OF ins, of pid] by (simp add: stock_of_def)
  have dis: "distinct (map item_id cart) \<longrightarrow>
              (\<forall>item\<in>set cart. stock_of db' (item_id item) = stock_of db (item_id item) - item_qty item)"
    by (auto simp add: st distinct_line_qty)
  have "sum_list (map (\<lambda>pid. stock_of db pid - stock_of db' pid) (remdups (map item_id cart))) =
        sum_list (map (\<lambda>pid. sum_list (map item_qty (filter (\<lambda>i. item_id i = pid) cart)))
                   (remdups (map item_id cart)))"
    by (simp add: st)
  also have "\<dots> = sum_list (map item_qty cart)"
    by (rule sum_list_grouped) simp_all
  also have "\<dots> = sum_list (map si_quantity rows)" by (simp add: r(4))
  finally have cons:
    "sum_list (map (\<lambda>pid. stock_of db pid - stock_of db' pid) (remdups (map item_id cart))) =
       sum_list (map si_quantity rows)" .
  have si: "sale_items db' = sale_items db @ rows" using r(1) by simp
  show ?thesis using si len r(2,3,4,5) tot st dis cons by blast
qed

theorem save_sale_stock_conservation_witness:
  "save_sale shop_db 1700000000 1234 cart_a 5 0 0 5 5 ''Cash'' ''Ann'' None =
     (Inr (1, ''R17000000001234''),
      snd (save_sale shop_db 1700000000 1234 cart_a 5 0 0 5 5 ''Cash'' ''Ann'' None)) \<and>
   length (sale_items (snd (save_sale shop_db 1700000000 1234 cart_a 5 0 0 5 5 ''Cash'' ''Ann'' None))) = 2 \<and>
   map si_quantity (sale_items (snd (save_sale shop_db 1700000000 1234 cart_a 5 0 0 5 5 ''Cash'' ''Ann'' None))) = [2, 1] \<and>
   stock_of (snd (save_sale shop_db 1700000000 1234 cart_a 5 0 0 5 5 ''Cash'' ''Ann'' None)) 1 = 1 \<and>
   stock_of (snd (save_sale shop_db 1700000000 1234 cart_a 5 0 0 5 5 ''Cash'' ''Ann'' None)) 2 = 9"
proof -
  let ?db' = "snd (save_sale shop_db 1700000000 1234 cart_a 5 0 0 5 5 ''Cash'' ''Ann'' None)"
  have "fst (save_sale shop_db 1700000000 1234 cart_a 5 0 0 5 5 ''Cash'' ''Ann'' None) =
          Inr (1, ''R17000000001234'')"
    by (simp add: save_sale_unfold cart_a_def shop_products line_fields receipt_demo shop_db_def)
  then have h: "save_sale shop_db 1700000000 1234 cart_a 5 0 0 5 5 ''Cash'' ''Ann'' None =
                  (Inr (1, ''R17000000001234''), ?db')"
    by (simp add: prod_eq_iff)
  from save_sale_stock_conservation [OF h] obtain rows where
    r: "sale_items ?db' = sale_items shop_db @ rows" "length rows = length cart_a"
       "map si_quantity rows = map item_qty cart_a" and
    s: "\<forall>pid. stock_of ?db' pid =
          stock_of shop_db pid - sum_list (map item_qty (filter (\<lambda>i. item_id i = pid) cart_a))"
    by blast
  have e: "sale_items shop_db = []" by (simp add: shop_db_def)
  have s1: "stock_of ?db' 1 = 1"
    using s by (simp add: cart_a_def line_fields stock_of_def shop_products)
  have s2: "stock_of ?db' 2 = 9"
    using s by (simp add: cart_a_def line_fields stock_of_def shop_products)
  have l: "length (sale_items ?db') = 2" using r(1,2) e by (simp add: cart_a_def)
  have q: "map si_quantity (sale_items ?db') = [2, 1]"
    using r(1,3) e by (simp add: cart_a_def line_fields)
  show ?thesis using h l q s1 s2 by simp
qed

text \<open>
  Claim C8 says that the stock of every referenced product is still non-negative after a
  successful commit, also when several lines name the same product. The first loop
  compares each line on its own with the persisted stock, the second loop subtracts every
  line: called with two lines of 2 units of one product, \<^verbatim>\<open>save_sale\<close> passes both against
  a stock of 3 and leaves a stock of -1.
\<close>

theorem save_sale_duplicate_lines_negative_stock:
  "fst (save_sale shop_db 1700000000 1234 [line 1 ''Cola'' (3 / 2) 2, line 1 ''Cola'' (3 / 2) 2]
          6 0 0 6 6 ''Cash'' ''Ann'' None) = Inr (1, ''R17000000001234'') \<and>
   stock_of shop_db 1 = 3 \<and>
   stock_of (snd (save_sale shop_db 1700000000 1234
                    [line 1 ''Cola'' (3 / 2) 2, line 1 ''Cola'' (3 / 2) 2]
                    6 0 0 6 6 ''Cash'' ''Ann'' None)) 1 = - 1"
  by (simp add: save_sale_unfold shop_db_def line_fields receipt_demo stock_of_def)

text \<open>
  Claim C8, as the code has it: the cart that \<^verbatim>\<open>add_to_cart\<close> builds has at most one line
  per product, since a product already in the cart has its line's quantity raised instead
  of a second line appended. For every cart whose lines name pairwise different products
  and for which the commit succeeds, the stock of every referenced product is the
  persisted stock less the line's quantity, and it is not negative.
\<close>

theorem save_sale_distinct_stock_nonneg:
  assumes "save_sale db timestamp random_part cart subtotal discount tax total_amount paid
             payment_method cashier_name customer_id = (Inr (sale_id, receipt_number), db')"
    and "distinct (map item_id cart)"
  shows "\<forall>item\<in>set cart.
           stock_of db' (item_id item) = stock_of db (item_id item) - item_qty item \<and>
           0 \<le> stock_of db' (item_id item)"
proof
  fix item
  assume item: "item \<in> set cart"
  have c: "check_stock db cart = None" by (rule save_sale_success(1) [OF assms(1)])
  then obtain p where p: "products db (item_id item) = Some p" "item_qty item \<le> p_stock p"
    using item by (auto simp add: check_stock_None)
  let ?db1 = "db\<lparr>sales := sales db @
                    [sale_record sale_id receipt_number customer_id subtotal discount tax
                       total_amount paid payment_method cashier_name],
                  sales_seq := sale_id\<rparr>"
  have ins: "insert_items sale_id cart ?db1 = Inr db'"
    by (rule save_sale_success(5) [OF assms(1)])
  have eq: "stock_of db' (item_id item) = stock_of db (item_id item) - item_qty item"
    using stock_of_after [OF ins, of "item_id item"] distinct_line_qty [OF assms(2) item]
    by (simp add: stock_of_def)
  moreover have "0 \<le> stock_of db (item_id item) - item_qty item"
    using p by (simp add: stock_of_def)
  ultimately show "stock_of db' (item_id item) = stock_of db (item_id item) - item_qty item \<and>
           0 \<le> stock_of db' (item_id item)"
    by simp
qed

theorem save_sale_distinct_stock_nonneg_witness:
  "save_sale shop_db 1700000000 1234 [line 1 ''Cola'' (3 / 2) 3, line 3 ''Gum'' 1 2]
     (13 / 2) 0 0 (13 / 2) 10 ''Cash'' ''Ann'' None =
     (Inr (1, ''R17000000001234''),
      snd (save_sale shop_db 1700000000 1234 [line 1 ''Cola'' (3 / 2) 3, line 3 ''Gum'' 1 2]
             (13 / 2) 0 0 (13 / 2) 10 ''Cash'' ''Ann'' None)) \<and>
   distinct (map item_id [line 1 ''Cola'' (3 / 2) 3, line 3 ''Gum'' 1 2]) \<and>
   stock_of (snd (save_sale shop_db 1700000000 1234 [line 1 ''Cola'' (3 / 2) 3, line 3 ''Gum'' 1 2]
             (13 / 2) 0 0 (13 / 2) 10 ''Cash'' ''Ann'' None)) 1 = 0 \<and>
   stock_of (snd (save_sale shop_db 1700000000 1234 [line 1 ''Cola'' (3 / 2) 3, line 3 ''Gum'' 1 2]
             (13 / 2) 0 0 (13 / 2) 10 ''Cash'' ''Ann'' None)) 3 = 3 \<and>
   0 \<le> stock_of (snd (save_sale shop_db 1700000000 1234
             [line 1 ''Cola'' (3 / 2) 3, line 3 ''Gum'' 1 2]
             (13 / 2) 0 0 (13 / 2) 10 ''Cash'' ''Ann'' None)) 1"
proof -
  let ?cart = "[line 1 ''Cola'' (3 / 2) 3, line 3 ''Gum'' 1 2]"
  let ?r = "save_sale shop_db 1700000000 1234 ?cart (13 / 2) 0 0 (13 / 2) 10 ''Cash'' ''Ann'' None"
  have "fst ?r = Inr (1, ''R17000000001234'')"
    by (simp add: save_sale_unfold shop_products line_fields receipt_demo shop_db_def)
  then have h: "?r = (Inr (1, ''R17000000001234''), snd ?r)" by (simp add: prod_eq_iff)
  have d: "distinct (map item_id ?cart)" by (simp add: line_fields)
  have a: "\<forall>item\<in>set ?cart.
             stock_of (snd ?r) (item_id item) = stock_of shop_db (item_id item) - item_qty item \<and>
             0 \<le> stock_of (snd ?r) (item_id item)"
    by (rule save_sale_distinct_stock_nonneg [OF h d])
  have s1: "stock_of (snd ?r) 1 = 0" and n1: "0 \<le> stock_of (snd ?r) 1"
    using a by (simp_all add: line_fields stock_of_def shop_products)
  have s3: "stock_of (snd ?r) 3 = 3"
    using a by (simp add: line_fields stock_of_def shop_products)
  show ?thesis using h d s1 s3 n1 by simp
qed

section \<open>Receipt numbers\<close>

text \<open>
  Claim C7 says that a collision of the generated receipt number is answered by generating
  another number and trying again. \<^verbatim>\<open>save_sale\<close> generates the number once, before the
  transaction: with the number of the first sale taken, the commit fails at once, although
  the next random part would have gone through.
\<close>

theorem save_sale_no_retry:
  "fst (save_sale busy_db 1700000000 1234 [line 3 ''Gum'' 1 1] 1 0 0 1 1 ''Cash'' ''Ann'' None) =
     Inl (DatabaseError ''UNIQUE constraint failed: sales.receipt_number'') \<and>
   fst (save_sale busy_db 1700000000 1235 [line 3 ''Gum'' 1 1] 1 0 0 1 1 ''Cash'' ''Ann'' None) =
     Inr (2, ''R17000000001235'')"
  by (simp add: save_sale_unfold busy_db_def shop_products line_fields receipt_demo
        receipt_demo_next sale_record_def)

text \<open>
  Claim C7, as the code has it: when the generated receipt number is already that of a sale
  row, the commit fails at its first and only attempt and leaves the database unchanged;
  for a cart that passes the stock check the error is the \<^verbatim>\<open>ValueError\<close> that wraps the
  \<^verbatim>\<open>UNIQUE\<close> violation of the insert.
\<close>

theorem save_sale_receipt_collision:
  assumes "make_receipt_number timestamp random_part \<in> set (map s_receipt_number (sales db))"
  shows "save_sale db timestamp random_part cart subtotal discount tax total_amount paid
           payment_method cashier_name customer_id =
         (Inl (case check_stock db cart of
                 Some e \<Rightarrow> e
               | None \<Rightarrow> DatabaseError ''UNIQUE constraint failed: sales.receipt_number''), db)"
  using assms unfolding save_sale_unfold by (simp split: option.splits)

theorem save_sale_receipt_collision_witness:
  "make_receipt_number 1700000000 1234 \<in> set (map s_receipt_number (sales busy_db)) \<and>
   save_sale busy_db 1700000000 1234 cart_a 5 0 0 5 5 ''Cash'' ''Ann'' None =
     (Inl (DatabaseError ''UNIQUE constraint failed: sales.receipt_number''), busy_db)"
proof -
  have h: "make_receipt_number 1700000000 1234 \<in> set (map s_receipt_number (sales busy_db))"
    by (simp add: receipt_demo busy_db_def sale_record_def)
  have c: "check_stock busy_db cart_a = None"
    by (simp add: busy_db_def cart_a_def shop_products line_fields)
  show ?thesis
    using h save_sale_receipt_collision [OF h, where cart = cart_a and subtotal = 5
        and discount = 0 and tax = 0 and total_amount = 5 and paid = 5
        and payment_method = "''Cash''" and cashier_name = "''Ann''" and customer_id = None]
    by (simp add: c)
qed

section \<open>The calculator\<close>

text \<open>
  Claim C9 expects, for the cart of Scenario A with the discount text \<^verbatim>\<open>10%\<close> and a tax of
  5 percent, the shown total 4.73. The float sum \<^verbatim>\<open>5.0 - 0.5 + 0.225\<close> is the float just
  below 4.725, which \<^verbatim>\<open>f"{total:.2f}"\<close> prints as 4.72.
\<close>

theorem scenario_a_total_not_473:
  "total_var (update_totals float_of_decimal app_a) \<noteq> 473 / 100"
  unfolding shown_a by simp

text \<open>
  Claim C9, as the code has it: for the cart of Scenario A with the discount text
  \<^verbatim>\<open>10%\<close> and a tax of 5 percent, \<^verbatim>\<open>update_totals\<close> shows the subtotal 5.00, the
  discount 0.50, the tax 0.23 and the total 4.72. The tax before rounding is the float
  just above 0.225 and the total before rounding is the float just below 4.725.
\<close>

theorem scenario_a_shown:
  "subtotal_var (update_totals float_of_decimal app_a) = 500 / 100 \<and>
   discount_amount_var (update_totals float_of_decimal app_a) = 50 / 100 \<and>
   tax_var (update_totals float_of_decimal app_a) = 23 / 100 \<and>
   total_var (update_totals float_of_decimal app_a) = 472 / 100 \<and>
   225 / 1000 < t_tax (compute_totals float_of_decimal cart_a ''10%'' 5) \<and>
   t_total (compute_totals float_of_decimal cart_a ''10%'' 5) < 4725 / 1000"
  unfolding shown_a totals_a by simp

text \<open>
  Claim C3 says that the discount is capped at the subtotal. \<^verbatim>\<open>parse_discount\<close> bounds a
  percentage by 100 but returns a flat amount as it is: on the subtotal 5.00 the text
  \<^verbatim>\<open>10\<close> gives the discount 10.00 and, with 5 percent tax, the total -5.25, and the
  checkout persists this sale (any payment of at least -5.25 is accepted).
\<close>

theorem flat_discount_not_capped:
  "cart_subtotal cart_a = 5 \<and>
   parse_discount float_of_decimal ''10'' (cart_subtotal cart_a) = 10 \<and>
   t_total (compute_totals float_of_decimal cart_a ''10'' 5) = - (21 / 4) \<and>
   sales (app_db (snd (checkout float_of_decimal (update_totals float_of_decimal app_flat)
          [ProcessPayment (Some 0) ''Cash''] 1700000000 1234))) =
     [sale_record 1 ''R17000000001234'' None 5 10 (- (1 / 4)) (- (21 / 4)) 0 ''Cash'' ''Ann'']"
  unfolding checkout_flat_sales totals_flat subtotal_a
  by (simp add: parse_discount_def decimal_10)

section \<open>Persisted amounts\<close>

text \<open>
  Claim C4 says that the stored total is the rounded sum of the stored subtotal, discount
  and tax, and that the stored change is rounded to two decimals. For one unit at 1.00
  with 10.4 percent discount, 4 percent tax and 1.00 paid, the stored amounts are 1.00,
  0.10, 0.04 and the total 0.93, while \<^verbatim>\<open>round(1.00 - 0.10 + 0.04, 2)\<close> is 0.94; the stored
  change is the float difference \<^verbatim>\<open>1.0 - 0.93\<close>, which is not the float 0.07.
\<close>

theorem stored_total_differs:
  "fst (checkout float_of_decimal (update_totals float_of_decimal app_gum)
          [ProcessPayment (Some 1) ''Cash''] 1700000000 1234) =
     SaleCompleted 1 ''R17000000001234'' \<and>
   s_total (last (sales (app_db (snd (checkout float_of_decimal
      (update_totals float_of_decimal app_gum) [ProcessPayment (Some 1) ''Cash'']
      1700000000 1234))))) \<noteq>
   round2 (fadd (fsub
      (s_subtotal (last (sales (app_db (snd (checkout float_of_decimal
         (update_totals float_of_decimal app_gum) [ProcessPayment (Some 1) ''Cash'']
         1700000000 1234))))))
      (s_discount (last (sales (app_db (snd (checkout float_of_decimal
         (update_totals float_of_decimal app_gum) [ProcessPayment (Some 1) ''Cash'']
         1700000000 1234)))))))
      (s_tax (last (sales (app_db (snd (checkout float_of_decimal
         (update_totals float_of_decimal app_gum) [ProcessPayment (Some 1) ''Cash'']
         1700000000 1234))))))) \<and>
   s_change_amount (last (sales (app_db (snd (checkout float_of_decimal
      (update_totals float_of_decimal app_gum) [ProcessPayment (Some 1) ''Cash'']
      1700000000 1234))))) \<noteq>
   round2 (fsub
      (s_paid (last (sales (app_db (snd (checkout float_of_decimal
         (update_totals float_of_decimal app_gum) [ProcessPayment (Some 1) ''Cash'']
         1700000000 1234))))))
      (s_total (last (sales (app_db (snd (checkout float_of_decimal
         (update_totals float_of_decimal app_gum) [ProcessPayment (Some 1) ''Cash'']
         1700000000 1234)))))))"
  unfolding checkout_gum_sales checkout_gum_paid
  by (simp add: sale_record_def round2_def float_of_text_def fadd_def fsub_def fl_vals format_vals)

text \<open>
  Claim C4, as the code has it: of every sale persisted by a completed checkout, the
  stored subtotal, discount, tax and total are each the two-decimal rounding of the
  amount that \<^verbatim>\<open>update_totals\<close> computed, so the stored total is
  \<^verbatim>\<open>round(subtotal - discount + tax, 2)\<close> of the amounts before rounding; the amount paid
  is at least the stored total, and the stored change is the float difference of paid
  and total, not rounded.
\<close>

theorem checkout_stored_amounts:
  assumes "checkout py_float (update_totals py_float st) events timestamp random_part =
             (SaleCompleted sale_id receipt_number, st')"
  shows "\<exists>row. sales (app_db st') = sales (app_db st) @ [row] \<and>
           s_subtotal row =
             round2 (t_subtotal (compute_totals py_float (app_cart st) (discount_var st) (tax_percent st))) \<and>
           s_discount row =
             round2 (t_discount (compute_totals py_float (app_cart st) (discount_var st) (tax_percent st))) \<and>
           s_tax row =
             round2 (t_tax (compute_totals py_float (app_cart st) (discount_var st) (tax_percent st))) \<and>
           s_total row =
             round2 (t_total (compute_totals py_float (app_cart st) (discount_var st) (tax_percent st))) \<and>
           t_total (compute_totals py_float (app_cart st) (discount_var st) (tax_percent st)) =
             fadd (fsub (t_subtotal (compute_totals py_float (app_cart st) (discount_var st) (tax_percent st)))
                        (t_discount (compute_totals py_float (app_cart st) (discount_var st) (tax_percent st))))
                  (t_tax (compute_totals py_float (app_cart st) (discount_var st) (tax_percent st))) \<and>
           s_total row \<le> s_paid row \<and>
           s_change_amount row = fsub (s_paid row) (s_total row)"
proof -
  let ?u = "update_totals py_float st"
  from checkout_sale_row [OF assms] obtain paid pay_method where
    d: "payment_dialog (float_of_text (total_var ?u)) events = Some (paid, pay_method)" and
    r: "sales (app_db st') = sales (app_db ?u) @
             [sale_record sale_id receipt_number (selected_customer ?u)
                (float_of_text (subtotal_var ?u)) (float_of_text (discount_amount_var ?u))
                (float_of_text (tax_var ?u)) (float_of_text (total_var ?u)) paid pay_method
                (cashier ?u)]"
    by blast
  have le: "float_of_text (total_var ?u) \<le> paid" using d by (rule payment_dialog_paid)
  show ?thesis
    by (rule exI [of _ "sale_record sale_id receipt_number (selected_customer ?u)
                (float_of_text (subtotal_var ?u)) (float_of_text (discount_amount_var ?u))
                (float_of_text (tax_var ?u)) (float_of_text (total_var ?u)) paid pay_method
                (cashier ?u)"])
       (use r le in \<open>simp add: sale_record_def update_totals_fields round2_def
          compute_totals_def Let_def\<close>)
qed

theorem checkout_stored_amounts_witness:
  "checkout float_of_decimal (update_totals float_of_decimal app_a)
     [ProcessPayment (Some 4) ''Cash'', ProcessPayment (Some 5) ''Cash''] 1700000000 1234 =
     (SaleCompleted 1 ''R17000000001234'',
      snd (checkout float_of_decimal (update_totals float_of_decimal app_a)
             [ProcessPayment (Some 4) ''Cash'', ProcessPayment (Some 5) ''Cash'']
             1700000000 1234)) \<and>
   map s_subtotal (sales (app_db (snd (checkout float_of_decimal
      (update_totals float_of_decimal app_a)
      [ProcessPayment (Some 4) ''Cash'', ProcessPayment (Some 5) ''Cash''] 1700000000 1234)))) =
     [5] \<and>
   map s_total (sales (app_db (snd (checkout float_of_decimal
      (update_totals float_of_decimal app_a)
      [ProcessPayment (Some 4) ''Cash'', ProcessPayment (Some 5) ''Cash''] 1700000000 1234)))) =
     [float_of_text (472 / 100)]"
proof -
  let ?st' = "snd (checkout float_of_decimal (update_totals float_of_decimal app_a)
             [ProcessPayment (Some 4) ''Cash'', ProcessPayment (Some 5) ''Cash'']
             1700000000 1234)"
  have h: "checkout float_of_decimal (update_totals float_of_decimal app_a)
     [ProcessPayment (Some 4) ''Cash'', ProcessPayment (Some 5) ''Cash''] 1700000000 1234 =
     (SaleCompleted 1 ''R17000000001234'', ?st')"
    using checkout_a_paid by (simp add: prod_eq_iff)
  from checkout_stored_amounts [OF h] obtain row where
    r: "sales (app_db ?st') = sales (app_db app_a) @ [row]"
       "s_subtotal row =
          round2 (t_subtotal (compute_totals float_of_decimal (app_cart app_a) (discount_var app_a)
                    (tax_percent app_a)))"
       "s_total row =
          round2 (t_total (compute_totals float_of_decimal (app_cart app_a) (discount_var app_a)
                    (tax_percent app_a)))"
    by blast
  have a: "app_cart app_a = cart_a" "discount_var app_a = ''10%''" "tax_percent app_a = 5"
    "sales (app_db app_a) = []"
    by (simp_all add: app_a_def shop_db_def)
  have s: "s_subtotal row = 5"
    using r(2) by (simp add: a totals_a round2_def float_of_text_def format_vals fl_vals)
  have t: "s_total row = float_of_text (472 / 100)"
    using r(3) by (simp add: a totals_a round2_def format_vals)
  show ?thesis using h r(1) s t by (simp add: a)
qed

section \<open>Insufficient payment\<close>

text \<open>
  Claim C5 says that the commit verifies that the amount paid covers the total.
  \<^verbatim>\<open>DataManager.save_sale\<close> compares nothing: called with 4.00 paid against the total 4.72
  it persists the sale with a negative change.
\<close>

theorem save_sale_accepts_short_payment:
  "fst (save_sale shop_db 1700000000 1234 cart_a 5 (1 / 2) (float_of_text (23 / 100))
          (float_of_text (472 / 100)) 4 ''Cash'' ''Ann'' None) = Inr (1, ''R17000000001234'') \<and>
   4 < float_of_text (472 / 100) \<and>
   s_change_amount (last (sales (snd (save_sale shop_db 1700000000 1234 cart_a 5 (1 / 2)
          (float_of_text (23 / 100)) (float_of_text (472 / 100)) 4 ''Cash'' ''Ann'' None)))) < 0"
proof -
  let ?r = "save_sale shop_db 1700000000 1234 cart_a 5 (1 / 2) (float_of_text (23 / 100))
          (float_of_text (472 / 100)) 4 ''Cash'' ''Ann'' None"
  have lt: "4 < float_of_text (472 / 100)" by (simp add: float_of_text_def fl_vals)
  have f: "fst ?r = Inr (1, ''R17000000001234'')"
    by (simp add: save_sale_unfold cart_a_def shop_products line_fields receipt_demo shop_db_def)
  then have s: "?r = (Inr (1, ''R17000000001234''), snd ?r)" by (simp add: prod_eq_iff)
  have "sales (snd ?r) = sales shop_db @
          [sale_record 1 ''R17000000001234'' None 5 (1 / 2)
             (float_of_text (23 / 100)) (float_of_text (472 / 100)) 4 ''Cash'' ''Ann'']"
    by (rule save_sale_sales [OF s])
  then have "s_change_amount (last (sales (snd ?r))) = fsub 4 (float_of_text (472 / 100))"
    by (simp add: sale_record_def)
  then have "s_change_amount (last (sales (snd ?r))) < 0" using fsub_neg [OF lt] by simp
  then show ?thesis using f lt by simp
qed

text \<open>
  Claim C5, as the code has it: the check is that of the payment dialog. A checkout in
  which every amount entered is below the total shown ends without a call of
  \<^verbatim>\<open>save_sale\<close> and leaves the session, its cart and the database as they were; and every
  sale that a checkout persists has an amount paid of at least the total and the change
  \<^verbatim>\<open>paid - total\<close>, which is not negative.
\<close>

theorem checkout_payment_check:
  assumes "checkout py_float st events timestamp random_part = (result, st')"
  shows "((\<forall>e\<in>set events. \<forall>paid pay_method.
             e = ProcessPayment (Some paid) pay_method \<longrightarrow> paid < float_of_text (total_var st)) \<longrightarrow>
          st' = st \<and> (result = NoPayment \<or> result = CartEmpty)) \<and>
         (\<forall>sale_id receipt_number. result = SaleCompleted sale_id receipt_number \<longrightarrow>
            (\<exists>row. sales (app_db st') = sales (app_db st) @ [row] \<and>
                   s_total row = float_of_text (total_var st) \<and>
                   s_total row \<le> s_paid row \<and>
                   s_change_amount row = fsub (s_paid row) (s_total row) \<and>
                   0 \<le> s_change_amount row))"
proof (intro conjI impI allI)
  assume "\<forall>e\<in>set events. \<forall>paid pay_method.
             e = ProcessPayment (Some paid) pay_method \<longrightarrow> paid < float_of_text (total_var st)"
  then have "payment_dialog (float_of_text (total_var st)) events = None"
    by (rule payment_dialog_refuses)
  from checkout_no_payment [OF this, of py_float timestamp random_part] assms
  show "st' = st" and "result = NoPayment \<or> result = CartEmpty"
    by (auto split: if_splits)
next
  fix sale_id receipt_number
  assume "result = SaleCompleted sale_id receipt_number"
  with assms have c: "checkout py_float st events timestamp random_part =
      (SaleCompleted sale_id receipt_number, st')" by simp
  from checkout_sale_row [OF c] obtain paid pay_method where
    d: "payment_dialog (float_of_text (total_var st)) events = Some (paid, pay_method)" and
    r: "sales (app_db st') = sales (app_db st) @
             [sale_record sale_id receipt_number (selected_customer st)
                (float_of_text (subtotal_var st)) (float_of_text (discount_amount_var st))
                (float_of_text (tax_var st)) (float_of_text (total_var st)) paid pay_method
                (cashier st)]"
    by blast
  have le: "float_of_text (total_var st) \<le> paid" using d by (rule payment_dialog_paid)
  show "\<exists>row. sales (app_db st') = sales (app_db st) @ [row] \<and>
                   s_total row = float_of_text (total_var st) \<and>
                   s_total row \<le> s_paid row \<and>
                   s_change_amount row = fsub (s_paid row) (s_total row) \<and>
                   0 \<le> s_change_amount row"
    by (rule exI [of _ "sale_record sale_id receipt_number (selected_customer st)
                (float_of_text (subtotal_var st)) (float_of_text (discount_amount_var st))
                (float_of_text (tax_var st)) (float_of_text (total_var st)) paid pay_method
                (cashier st)"])
       (use r le in \<open>simp add: sale_record_def fsub_nonneg\<close>)
qed

theorem checkout_payment_check_witness:
  "snd (checkout float_of_decimal (update_totals float_of_decimal app_a)
          [ProcessPayment (Some 4) ''Cash''] 1700000000 1234) =
     update_totals float_of_decimal app_a \<and>
   4 < float_of_text (total_var (update_totals float_of_decimal app_a)) \<and>
   fst (checkout float_of_decimal (update_totals float_of_decimal app_a)
          [ProcessPayment (Some 4) ''Cash'', ProcessPayment (Some 5) ''Cash''] 1700000000 1234) =
     SaleCompleted 1 ''R17000000001234'' \<and>
   0 \<le> s_change_amount (last (sales (app_db (snd (checkout float_of_decimal
          (update_totals float_of_decimal app_a)
          [ProcessPayment (Some 4) ''Cash'', ProcessPayment (Some 5) ''Cash'']
          1700000000 1234)))))"
proof -
  let ?st = "update_totals float_of_decimal app_a"
  let ?c1 = "checkout float_of_decimal ?st [ProcessPayment (Some 4) ''Cash''] 1700000000 1234"
  let ?c2 = "checkout float_of_decimal ?st
               [ProcessPayment (Some 4) ''Cash'', ProcessPayment (Some 5) ''Cash'']
               1700000000 1234"
  have lt: "4 < float_of_text (total_var ?st)"
    unfolding shown_a by (simp add: float_of_text_def fl_vals)
  have short: "\<forall>e\<in>set [ProcessPayment (Some 4) ''Cash'']. \<forall>paid pay_method.
                 e = ProcessPayment (Some paid) pay_method \<longrightarrow> paid < float_of_text (total_var ?st)"
    using lt by simp
  have h1: "?c1 = (fst ?c1, snd ?c1)" by simp
  have u: "snd ?c1 = ?st" using checkout_payment_check [OF h1] short by blast
  have h2: "?c2 = (SaleCompleted 1 ''R17000000001234'', snd ?c2)"
    using checkout_a_paid by (simp add: prod_eq_iff)
  from checkout_payment_check [OF h2] obtain row where
    "sales (app_db (snd ?c2)) = sales (app_db ?st) @ [row]" "0 \<le> s_change_amount row"
    by blast
  then have "0 \<le> s_change_amount (last (sales (app_db (snd ?c2))))" by simp
  then show ?thesis using u lt checkout_a_paid by simp
qed


end
